theory Spec2Isabelle
  imports Complex_Main
begin

section \<open>Data model of the map view\<close>

text \<open>
  The component \<open>MapContainer\<close> (client/src/components/map-container.tsx) keeps its state in
  React state variables and drives a Mapbox map object held in the ref \<open>map.current\<close>.
  JavaScript numbers are modelled by the rational they denote, strings by \<open>string\<close>.
\<close>

datatype clickMode = CM_none | CM_start | CM_end

record lngLat =
  lng :: rat
  lat :: rat

record transitDetails =
  line :: string
  vehicle :: string
  stop :: string

record routeStep =
  instruction :: string
  stepDistance :: "string option"
  stepDuration :: "string option"
  transitDetails :: "transitDetails option"

record latLng =
  bLat :: rat
  bLng :: rat

record routeBounds =
  southwest :: latLng
  northeast :: latLng

record routeGeometry =
  coordinates :: "(rat \<times> rat) list option"

text \<open>
  A route as the client reads it from the response of \<open>/api/routes/search\<close>. The client
  types it \<open>any\<close>; the fields are the ones of \<open>routeSchema\<close> (shared/schema.ts) and the
  \<open>geometry\<close> that \<open>displayRoutesOnMap\<close> looks for. An absent field is \<open>None\<close>.
\<close>

record route =
  duration :: string
  distance :: string
  steps :: "routeStep list"
  bounds :: "routeBounds option"
  geometry :: "routeGeometry option"

subsection \<open>The map engine behind \<open>map.current\<close>\<close>

text \<open>
  The engine is the external Mapbox object. Its state is the part the component reads back
  (\<open>getSource\<close>, \<open>getLayer\<close>, \<open>getStyle\<close>) or that the claims speak about: the sources and
  layers of the style, the markers attached to the map, the listeners of the map's
  \<open>click\<close> event, the cursor of the canvas, the last \<open>fitBounds\<close> request. Every mutating
  call the component makes is a \<open>mapCall\<close>; \<open>exec\<close> applies it and appends it to the log
  \<open>calls\<close>, so that the order of the calls can be stated. The listeners bound to a layer
  (\<open>map.on(type, layerId, fn)\<close>) and the camera moves of \<open>flyTo\<close> are kept in the log only.
\<close>

record sourceSpec =
  srcRouteIndex :: nat
  srcDuration :: string
  srcDistance :: string
  srcGeometry :: routeGeometry

datatype sourceData = StyleSource | GeoJSON sourceSpec

record layerSpec =
  layerId :: string
  layerSource :: string
  lineColor :: string

record markerSpec =
  markerColor :: string
  markerLngLat :: "rat \<times> rat"
  markerPopup :: string

text \<open>
  A listener of the map's \<open>click\<close> event: the logging listener bound at mount, or the closure
  \<open>handleLocationClick\<close> of a given render (each render creates a new closure, and
  \<open>map.off\<close> finds a listener by identity).
\<close>

datatype listener = DebugLog | LocationClick nat

datatype mapCall =
    SetCursor string
  | OnClick listener
  | OffClick listener
  | AddSource string sourceData
  | AddLayer layerSpec
  | OnLayer string string
  | OffLayer string string
  | RemoveLayer string
  | RemoveSource string
  | FitBounds "(rat \<times> rat) \<times> (rat \<times> rat)"
  | FlyTo "rat \<times> rat" rat
  | AddMarker markerSpec
  | RemoveMarker nat

record engine =
  sources :: "(string \<times> sourceData) list"
  layers :: "layerSpec list"
  markers :: "(nat \<times> markerSpec) list"
  nextMarker :: nat
  clickListeners :: "listener list"
  cursor :: string
  fitted :: "((rat \<times> rat) \<times> (rat \<times> rat)) option"
  calls :: "mapCall list"

definition getSource :: "string \<Rightarrow> engine \<Rightarrow> bool" where
  "getSource sourceId e = (sourceId \<in> set (map fst (sources e)))"

definition getLayer :: "string \<Rightarrow> engine \<Rightarrow> bool" where
  "getLayer lid e = (lid \<in> set (map layerId (layers e)))"

definition sourceInUse :: "string \<Rightarrow> engine \<Rightarrow> bool" where
  "sourceInUse sourceId e = (sourceId \<in> set (map layerSource (layers e)))"

text \<open>
  The engine's reaction to a call. A source or layer whose id exists already is not added
  again, and a source is not removed while a layer uses it (the engine reports an error
  and leaves the style as it is). A new marker gets the next free reference.
\<close>

fun react :: "mapCall \<Rightarrow> engine \<Rightarrow> engine" where
  "react (SetCursor c) e = e\<lparr>cursor := c\<rparr>"
| "react (OnClick l) e = e\<lparr>clickListeners := clickListeners e @ [l]\<rparr>"
| "react (OffClick l) e = e\<lparr>clickListeners := remove1 l (clickListeners e)\<rparr>"
| "react (AddSource sourceId d) e =
     (if getSource sourceId e then e else e\<lparr>sources := sources e @ [(sourceId, d)]\<rparr>)"
| "react (AddLayer l) e =
     (if getLayer (layerId l) e then e else e\<lparr>layers := layers e @ [l]\<rparr>)"
| "react (OnLayer ty lid) e = e"
| "react (OffLayer ty lid) e = e"
| "react (RemoveLayer lid) e = e\<lparr>layers := filter (\<lambda>l. layerId l \<noteq> lid) (layers e)\<rparr>"
| "react (RemoveSource sourceId) e =
     (if sourceInUse sourceId e then e
      else e\<lparr>sources := filter (\<lambda>s. fst s \<noteq> sourceId) (sources e)\<rparr>)"
| "react (FitBounds b) e = e\<lparr>fitted := Some b\<rparr>"
| "react (FlyTo center zoom) e = e"
| "react (AddMarker m) e =
     e\<lparr>markers := markers e @ [(nextMarker e, m)], nextMarker := Suc (nextMarker e)\<rparr>"
| "react (RemoveMarker r) e = e\<lparr>markers := filter (\<lambda>m. fst m \<noteq> r) (markers e)\<rparr>"

definition exec :: "mapCall \<Rightarrow> engine \<Rightarrow> engine" where
  "exec c e = (react c e)\<lparr>calls := calls e @ [c]\<rparr>"

definition run :: "mapCall list \<Rightarrow> engine \<Rightarrow> engine" where
  "run cs e = fold exec cs e"

subsection \<open>The state of the component\<close>

text \<open>
  \<open>view\<close> holds the React state variables the route panel uses; \<open>startMarker\<close> and
  \<open>endMarker\<close> hold the reference of a marker object. \<open>world\<close> adds the ref \<open>map.current\<close>
  (\<open>None\<close> is \<open>null\<close>), the requests sent to \<open>/api/routes/search\<close> and the console.

  Every function of the component is a closure of one render: where the source reads a
  state variable, it reads the value of that render, and where it calls a setter, the
  live state changes. The functions below therefore take the render's state \<open>c\<close> and the
  live world \<open>w\<close>.
\<close>

record view =
  showInfoPanel :: bool
  showRoutePanel :: bool
  startLocation :: string
  endLocation :: string
  routeResults :: "route list"
  isLoadingRoute :: bool
  activeRouteHandlers :: "string list"
  clickMode :: clickMode
  startCoords :: "lngLat option"
  endCoords :: "lngLat option"
  startMarker :: "nat option"
  endMarker :: "nat option"

record searchRequest =
  reqStart :: string
  reqEnd :: string
  reqMode :: string

record world =
  view :: view
  mapCurrent :: "engine option"
  requests :: "searchRequest list"
  console :: "string list"

definition setView :: "(view \<Rightarrow> view) \<Rightarrow> world \<Rightarrow> world" where
  "setView f w = w\<lparr>view := f (view w)\<rparr>"

definition onMap :: "(engine \<Rightarrow> engine) \<Rightarrow> world \<Rightarrow> world" where
  "onMap f w = w\<lparr>mapCurrent := map_option f (mapCurrent w)\<rparr>"

definition markerRemove :: "nat \<Rightarrow> world \<Rightarrow> world" where
  "markerRemove r w = onMap (exec (RemoveMarker r)) w"

subsection \<open>The picking buttons\<close>

text \<open>
  \<open>onClick={() => setClickMode(clickMode === 'start' ? 'none' : 'start')}\<close> and the same
  for \<open>'end'\<close>.
\<close>

definition startButtonClick :: "view \<Rightarrow> world \<Rightarrow> world" where
  "startButtonClick c w =
     setView (\<lambda>v. v\<lparr>clickMode := (if clickMode c = CM_start then CM_none else CM_start)\<rparr>) w"

definition endButtonClick :: "view \<Rightarrow> world \<Rightarrow> world" where
  "endButtonClick c w =
     setView (\<lambda>v. v\<lparr>clickMode := (if clickMode c = CM_end then CM_none else CM_end)\<rparr>) w"

subsection \<open>clearLocationMarkers\<close>

definition clearLocationMarkers :: "view \<Rightarrow> world \<Rightarrow> world" where
  "clearLocationMarkers c w =
     (let w1 = (case startMarker c of
                  Some r \<Rightarrow> setView (\<lambda>v. v\<lparr>startMarker := None\<rparr>) (markerRemove r w)
                | None \<Rightarrow> w);
          w2 = (case endMarker c of
                  Some r \<Rightarrow> setView (\<lambda>v. v\<lparr>endMarker := None\<rparr>) (markerRemove r w1)
                | None \<Rightarrow> w1)
      in setView (\<lambda>v. v\<lparr>startCoords := None, endCoords := None,
                         startLocation := [], endLocation := []\<rparr>) w2)"

subsection \<open>Number formatting\<close>

text \<open>
  \<open>decimal n\<close> is the decimal numeral of a natural number, as a template literal prints an
  array index. \<open>toFixed\<close> follows the steps of \<open>Number.prototype.toFixed\<close> on the value
  \<open>x\<close> of a number below \<open>10^21\<close> in magnitude (every coordinate is): the sign is split
  off, \<open>n\<close> is the integer nearest to \<open>x * 10^f\<close> (the larger one on a tie), and its
  digits are padded with zeros to \<open>f + 1\<close> places before the point is inserted.
\<close>

definition digitChar :: "nat \<Rightarrow> char" where
  "digitChar d = ''0123456789'' ! d"

fun decimal :: "nat \<Rightarrow> string" where
  "decimal n = (if n < 10 then [digitChar n] else decimal (n div 10) @ [digitChar (n mod 10)])"

declare decimal.simps [simp del]

definition toFixed :: "rat \<Rightarrow> nat \<Rightarrow> string" where
  "toFixed x f =
     (let s = (if x < 0 then ''-'' else []);
          x' = (if x < 0 then - x else x);
          n = nat \<lfloor>x' * 10 ^ f + 1 / 2\<rfloor>;
          m = decimal n;
          k = length m;
          m' = (if k \<le> f then replicate (f + 1 - k) (CHR ''0'') @ m else m);
          k' = (if k \<le> f then f + 1 else k)
      in if f \<noteq> 0 then s @ take (k' - f) m' @ ''.'' @ drop (k' - f) m' else s @ m)"

definition coordText :: "lngLat \<Rightarrow> string" where
  "coordText coords = toFixed (lat coords) 4 @ '', '' @ toFixed (lng coords) 4"

subsection \<open>Endpoint markers and the picking click\<close>

definition nextRef :: "world \<Rightarrow> nat" where
  "nextRef w = (case mapCurrent w of Some e \<Rightarrow> nextMarker e | None \<Rightarrow> 0)"

definition startPopup :: "lngLat \<Rightarrow> string" where
  \<open>startPopup coords =
     ''<div class="p-2"><h4 class="font-semibold text-sm text-green-600">Start Location</h4><p class="text-xs text-gray-600">''
     @ coordText coords @ ''</p></div>''\<close>

definition endPopup :: "lngLat \<Rightarrow> string" where
  \<open>endPopup coords =
     ''<div class="p-2"><h4 class="font-semibold text-sm text-red-600">End Location</h4><p class="text-xs text-gray-600">''
     @ coordText coords @ ''</p></div>''\<close>

definition addStartMarker :: "view \<Rightarrow> lngLat \<Rightarrow> world \<Rightarrow> world" where
  "addStartMarker c coords w =
     (case mapCurrent w of
        None \<Rightarrow> w
      | Some _ \<Rightarrow>
          (let w1 = (case startMarker c of Some r \<Rightarrow> markerRemove r w | None \<Rightarrow> w);
               marker = nextRef w1;
               w2 = onMap (exec (AddMarker \<lparr>markerColor = ''#10b981'',
                      markerLngLat = (lng coords, lat coords),
                      markerPopup = startPopup coords\<rparr>)) w1
           in setView (\<lambda>v. v\<lparr>startMarker := Some marker\<rparr>) w2))"

definition addEndMarker :: "view \<Rightarrow> lngLat \<Rightarrow> world \<Rightarrow> world" where
  "addEndMarker c coords w =
     (case mapCurrent w of
        None \<Rightarrow> w
      | Some _ \<Rightarrow>
          (let w1 = (case endMarker c of Some r \<Rightarrow> markerRemove r w | None \<Rightarrow> w);
               marker = nextRef w1;
               w2 = onMap (exec (AddMarker \<lparr>markerColor = ''#ef4444'',
                      markerLngLat = (lng coords, lat coords),
                      markerPopup = endPopup coords\<rparr>)) w1
           in setView (\<lambda>v. v\<lparr>endMarker := Some marker\<rparr>) w2))"

text \<open>
  \<open>handleLocationClick\<close>: \<open>coords\<close> is \<open>e.lngLat\<close> of the click event. The console
  holds warnings and errors only; \<open>console.log\<close> lines are left out.
\<close>

definition handleLocationClick :: "view \<Rightarrow> lngLat \<Rightarrow> world \<Rightarrow> world" where
  "handleLocationClick c coords w =
     (if clickMode c = CM_start then
        (let w1 = setView (\<lambda>v. v\<lparr>startCoords :=
                     Some \<lparr>lng = lng coords, lat = lat coords\<rparr>\<rparr>) w;
             w2 = setView (\<lambda>v. v\<lparr>startLocation := coordText coords\<rparr>) w1;
             w3 = addStartMarker c coords w2
         in setView (\<lambda>v. v\<lparr>clickMode := CM_none\<rparr>) w3)
      else if clickMode c = CM_end then
        (let w1 = setView (\<lambda>v. v\<lparr>endCoords :=
                     Some \<lparr>lng = lng coords, lat = lat coords\<rparr>\<rparr>) w;
             w2 = setView (\<lambda>v. v\<lparr>endLocation := coordText coords\<rparr>) w1;
             w3 = addEndMarker c coords w2
         in setView (\<lambda>v. v\<lparr>clickMode := CM_none\<rparr>) w3)
      else w)"

subsection \<open>Route overlays\<close>

definition startsWith :: "string \<Rightarrow> string \<Rightarrow> bool" where
  "startsWith s p = (take (length p) s = p)"

text \<open>
  \<open>clearRouteLayersFromMap\<close>: the listeners of the layers in \<open>activeRouteHandlers\<close> (of the
  closure's render) are taken off, then the layers and the sources of the style snapshot
  \<open>getStyle()\<close> whose ids start with \<open>route-layer-\<close> and \<open>route-\<close> are removed.
\<close>

definition detachLayer :: "string \<Rightarrow> engine \<Rightarrow> engine" where
  "detachLayer lid e =
     (if getLayer lid e then
        exec (OffLayer ''mouseleave'' lid)
          (exec (OffLayer ''mouseenter'' lid) (exec (OffLayer ''click'' lid) e))
      else e)"

definition dropLayer :: "layerSpec \<Rightarrow> engine \<Rightarrow> engine" where
  "dropLayer layer e =
     (if layerId layer \<noteq> [] \<and> startsWith (layerId layer) ''route-layer-'' then
        (if getLayer (layerId layer) e then exec (RemoveLayer (layerId layer)) e else e)
      else e)"

definition dropSource :: "string \<Rightarrow> engine \<Rightarrow> engine" where
  "dropSource sourceId e =
     (if startsWith sourceId ''route-'' then
        (if getSource sourceId e then exec (RemoveSource sourceId) e else e)
      else e)"

text \<open>The engine calls of \<open>clearRouteLayersFromMap\<close>, in the order of the source.\<close>

definition clearRoutesEngine :: "string list \<Rightarrow> engine \<Rightarrow> engine" where
  "clearRoutesEngine handlers e =
     (let e1 = fold detachLayer handlers e;
          styleLayers = layers e1;
          styleSources = map fst (sources e1);
          e2 = fold dropLayer styleLayers e1
      in fold dropSource styleSources e2)"

definition clearRouteLayersFromMap :: "view \<Rightarrow> world \<Rightarrow> world" where
  "clearRouteLayersFromMap c w =
     (case mapCurrent w of
        None \<Rightarrow> w
      | Some e \<Rightarrow>
          setView (\<lambda>v. v\<lparr>activeRouteHandlers := []\<rparr>)
            (w\<lparr>mapCurrent := Some (clearRoutesEngine (activeRouteHandlers c) e)\<rparr>))"

text \<open>
  \<open>displayRoutesOnMap\<close>: after the clearing, each route with a geometry that has
  coordinates gets the source \<open>route-i\<close> and the layer \<open>route-layer-i\<close>, \<open>i\<close> its index in
  \<open>routes\<close>, unless one of that id exists; a layer that is added gets its three listeners
  and is appended to \<open>activeRouteHandlers\<close>.
\<close>

definition routeSource :: "nat \<Rightarrow> route \<Rightarrow> routeGeometry \<Rightarrow> sourceData" where
  "routeSource routeIndex r g =
     GeoJSON \<lparr>srcRouteIndex = routeIndex, srcDuration = duration r,
              srcDistance = distance r, srcGeometry = g\<rparr>"

definition routeLayer :: "nat \<Rightarrow> layerSpec" where
  "routeLayer routeIndex =
     \<lparr>layerId = ''route-layer-'' @ decimal routeIndex,
      layerSource = ''route-'' @ decimal routeIndex,
      lineColor = (if routeIndex = 0 then ''#2563eb'' else ''#7c3aed'')\<rparr>"

definition addRoute :: "nat \<times> route \<Rightarrow> world \<Rightarrow> world" where
  "addRoute ir w =
     (let routeIndex = fst ir; r = snd ir in
      case geometry r of
        None \<Rightarrow> w
      | Some g \<Rightarrow>
          (case coordinates g of
             None \<Rightarrow> w
           | Some _ \<Rightarrow>
               (let sourceId = ''route-'' @ decimal routeIndex;
                    lid = ''route-layer-'' @ decimal routeIndex;
                    w1 = (if \<not> (case mapCurrent w of Some e \<Rightarrow> getSource sourceId e | None \<Rightarrow> False)
                          then onMap (exec (AddSource sourceId (routeSource routeIndex r g))) w
                          else w)
                in if \<not> (case mapCurrent w1 of Some e \<Rightarrow> getLayer lid e | None \<Rightarrow> False)
                   then
                     (let w2 = onMap (exec (AddLayer (routeLayer routeIndex))) w1;
                          w3 = onMap (exec (OnLayer ''click'' lid)) w2;
                          w4 = onMap (exec (OnLayer ''mouseenter'' lid)) w3;
                          w5 = onMap (exec (OnLayer ''mouseleave'' lid)) w4
                      in setView (\<lambda>v. v\<lparr>activeRouteHandlers := activeRouteHandlers v @ [lid]\<rparr>) w5)
                   else w1)))"

definition displayRoutesOnMap :: "view \<Rightarrow> route list \<Rightarrow> world \<Rightarrow> world" where
  "displayRoutesOnMap c routes w =
     (case mapCurrent w of
        None \<Rightarrow> w
      | Some _ \<Rightarrow> fold addRoute (enumerate 0 routes) (clearRouteLayersFromMap c w))"

subsection \<open>Route search\<close>

text \<open>
  \<open>trim\<close> is \<open>String.prototype.trim\<close> on the white space of the first 256 code points.
  The outcome of \<open>fetch\<close> is a failed request, or a response with its \<open>ok\<close> flag and the
  routes \<open>response.json()\<close> yields (\<open>None\<close> when the body does not parse). The search is
  run to its end with no other event in between; \<open>serve\<close> is the route-search boundary.
\<close>

definition isWhiteSpace :: "char \<Rightarrow> bool" where
  "isWhiteSpace ch = (of_char ch \<in> {9, 10, 11, 12, 13, 32, 160 :: nat})"

definition trim :: "string \<Rightarrow> string" where
  "trim s = rev (dropWhile isWhiteSpace (rev (dropWhile isWhiteSpace s)))"

datatype fetchResult = NetworkFailure | Response bool "route list option"

definition fitRouteBounds :: "routeBounds \<Rightarrow> world \<Rightarrow> world" where
  "fitRouteBounds b w =
     onMap (exec (FitBounds ((bLng (southwest b), bLat (southwest b)),
                             (bLng (northeast b), bLat (northeast b))))) w"

definition searchBusRoutes :: "view \<Rightarrow> (searchRequest \<Rightarrow> fetchResult) \<Rightarrow> world \<Rightarrow> world" where
  "searchBusRoutes c serve w =
     (if trim (startLocation c) = [] \<or> trim (endLocation c) = [] then
        w\<lparr>console := console w @ [''Please enter both start and end locations'']\<rparr>
      else
        (let w1 = setView (\<lambda>v. v\<lparr>isLoadingRoute := True\<rparr>) w;
             w2 = setView (\<lambda>v. v\<lparr>routeResults := []\<rparr>) w1;
             req = \<lparr>reqStart = startLocation c, reqEnd = endLocation c, reqMode = ''transit''\<rparr>;
             w3 = w2\<lparr>requests := requests w2 @ [req]\<rparr>;
             w4 = (case serve req of
                     NetworkFailure \<Rightarrow> w3\<lparr>console := console w3 @ [''Route search error:'']\<rparr>
                   | Response ok body \<Rightarrow>
                       (if ok then
                          (case body of
                             None \<Rightarrow> w3\<lparr>console := console w3 @ [''Route search error:'']\<rparr>
                           | Some routes \<Rightarrow>
                               (let w5 = setView (\<lambda>v. v\<lparr>routeResults := routes\<rparr>) w3 in
                                case routes of
                                  [] \<Rightarrow> w5
                                | r0 # _ \<Rightarrow>
                                    (let w6 = displayRoutesOnMap c routes w5 in
                                     case bounds r0 of
                                       None \<Rightarrow> w6
                                     | Some b \<Rightarrow> fitRouteBounds b w6)))
                        else w3\<lparr>console := console w3 @ [''Failed to search routes'']\<rparr>))
         in setView (\<lambda>v. v\<lparr>isLoadingRoute := False\<rparr>) w4))"

subsection \<open>Keyboard shortcuts and the clear button\<close>

text \<open>
  \<open>handleKeyDown\<close> is registered by an effect with no dependencies, so it stays the closure
  of the first render: the state it reads is \<open>initialView\<close>.
\<close>

definition initialView :: view where
  "initialView =
     \<lparr>showInfoPanel = False, showRoutePanel = False, startLocation = [], endLocation = [],
      routeResults = [], isLoadingRoute = False, activeRouteHandlers = [],
      clickMode = CM_none, startCoords = None, endCoords = None,
      startMarker = None, endMarker = None\<rparr>"

definition resetView :: "world \<Rightarrow> world" where
  "resetView w = onMap (exec (FlyTo (- 6337 / 10000, 356976 / 10000) 12)) w"

definition handleKeyDown :: "view \<Rightarrow> string \<Rightarrow> world \<Rightarrow> world" where
  "handleKeyDown c key w =
     (let w1 = (if key = ''Escape'' then
                  (let a = setView (\<lambda>v. v\<lparr>showInfoPanel := False\<rparr>) w;
                       b = setView (\<lambda>v. v\<lparr>showRoutePanel := False\<rparr>) a;
                       d = clearRouteLayersFromMap c b;
                       e = setView (\<lambda>v. v\<lparr>routeResults := []\<rparr>) d
                   in setView (\<lambda>v. v\<lparr>clickMode := CM_none\<rparr>) e)
                else w);
          w2 = (if key = ''i'' \<or> key = ''I''
                then setView (\<lambda>v. v\<lparr>showInfoPanel := \<not> showInfoPanel v\<rparr>) w1 else w1);
          w3 = (if key = ''b'' \<or> key = ''B''
                then setView (\<lambda>v. v\<lparr>showRoutePanel := \<not> showRoutePanel v\<rparr>) w2 else w2)
      in if key = ''r'' \<or> key = ''R'' then resetView w3 else w3)"

definition escapeKey :: "world \<Rightarrow> world" where
  "escapeKey w = handleKeyDown initialView ''Escape'' w"

definition clearButtonClick :: "view \<Rightarrow> world \<Rightarrow> world" where
  "clearButtonClick c w =
     (let w1 = clearLocationMarkers c w;
          w2 = clearRouteLayersFromMap c w1;
          w3 = setView (\<lambda>v. v\<lparr>routeResults := []\<rparr>) w2
      in setView (\<lambda>v. v\<lparr>clickMode := CM_none\<rparr>) w3)"

subsection \<open>The effect that binds the picking click handler\<close>

text \<open>
  \<open>useEffect(..., [clickMode])\<close>: \<open>clickModeEffect m h\<close> are the engine calls of the effect
  body in a render \<open>h\<close> whose \<open>clickMode\<close> is \<open>m\<close>, and \<open>clickModeCleanup h\<close> those of the
  cleanup it returns; both are skipped when \<open>map.current\<close> is null (\<open>live\<close> is false).
  React runs the effect after the first render and after each render in which
  \<open>clickMode\<close> differs from its value at the last run, the cleanup of the previous run
  first. \<open>effectState\<close> is what that needs: the number of the current render, the
  \<open>clickMode\<close> of the last run and the render whose closure that run holds.
\<close>

definition picking :: "clickMode \<Rightarrow> bool" where
  "picking m = (m = CM_start \<or> m = CM_end)"

definition clickModeEffect :: "bool \<Rightarrow> clickMode \<Rightarrow> nat \<Rightarrow> mapCall list" where
  "clickModeEffect live m h =
     (if live then
        [SetCursor (if picking m then ''crosshair'' else []), OffClick (LocationClick h)]
        @ (if picking m then [OnClick (LocationClick h)] else [])
      else [])"

definition clickModeCleanup :: "bool \<Rightarrow> nat \<Rightarrow> mapCall list" where
  "clickModeCleanup live h = (if live then [OffClick (LocationClick h)] else [])"

record effectState =
  renders :: nat
  depMode :: clickMode
  effRender :: nat

datatype uiEvent = SetClickMode clickMode | OtherUpdate

definition mountState :: effectState where
  "mountState = \<lparr>renders = 0, depMode = CM_none, effRender = 0\<rparr>"

fun uiStep :: "bool \<Rightarrow> uiEvent \<Rightarrow> effectState \<Rightarrow> effectState \<times> mapCall list" where
  "uiStep live (SetClickMode m) s =
     (if m = depMode s then (s, [])
      else (\<lparr>renders = Suc (renders s), depMode = m, effRender = Suc (renders s)\<rparr>,
            clickModeCleanup live (effRender s) @ clickModeEffect live m (Suc (renders s))))"
| "uiStep live OtherUpdate s = (s\<lparr>renders := Suc (renders s)\<rparr>, [])"

fun uiCalls :: "bool \<Rightarrow> effectState \<Rightarrow> uiEvent list \<Rightarrow> mapCall list" where
  "uiCalls live s [] = []"
| "uiCalls live s (ev # evs) =
     snd (uiStep live ev s) @ uiCalls live (fst (uiStep live ev s)) evs"

definition pickingCalls :: "bool \<Rightarrow> uiEvent list \<Rightarrow> mapCall list" where
  "pickingCalls live evs = clickModeEffect live CM_none 0 @ uiCalls live mountState evs"

text \<open>
  The map right after the first effect has created it on a style with the given layers
  and sources: no marker yet, the logging listener bound to \<open>click\<close>.
\<close>

definition newMap :: "layerSpec list \<Rightarrow> (string \<times> sourceData) list \<Rightarrow> engine" where
  "newMap ls ss =
     \<lparr>sources = ss, layers = ls, markers = [], nextMarker = 0, clickListeners = [DebugLog],
      cursor = [], fitted = None, calls = []\<rparr>"

definition pickingBound :: "engine \<Rightarrow> listener list" where
  "pickingBound e = filter (\<lambda>l. l \<noteq> DebugLog) (clickListeners e)"

section \<open>The backend (server/routes.ts, server/storage.ts, shared/schema.ts)\<close>

subsection \<open>Markers\<close>

text \<open>
  The body of \<open>POST /api/markers\<close> is a JSON object; \<open>markerBody\<close> holds the value under
  each key of the \<open>markers\<close> table's insert schema, \<open>None\<close> for an absent key.
  \<open>insertMarkerSchema\<close> is derived by \<open>createInsertSchema\<close> from the columns
  \<open>title text notNull\<close>, \<open>description text\<close>, \<open>latitude real notNull\<close>,
  \<open>longitude real notNull\<close>, \<open>color varchar(7) default\<close>: a required string, an optional
  nullable string, two required numbers, an optional nullable string of at most 7
  characters. The number of a \<open>real\<close> column is checked as the schema library does it,
  and its version is not in the source: \<open>z.number()\<close> with no bound (\<open>PlainNumber\<close>), or
  with the bounds \<open>-8388608\<close> and \<open>8388607\<close> the later versions put on that column type
  (\<open>Int24Bounds\<close>). The source adds no refinement of its own.
\<close>

datatype realColumn = PlainNumber | Int24Bounds

definition int24 :: "rat \<Rightarrow> bool" where
  "int24 x = (- 8388608 \<le> x \<and> x \<le> 8388607)"

fun realColumnCheck :: "realColumn \<Rightarrow> rat \<Rightarrow> bool" where
  "realColumnCheck PlainNumber x = True"
| "realColumnCheck Int24Bounds x = int24 x"

datatype json = JNull | JBool bool | JNum rat | JStr string | JOther

record markerBody =
  bodyTitle :: "json option"
  bodyDescription :: "json option"
  bodyLatitude :: "json option"
  bodyLongitude :: "json option"
  bodyColor :: "json option"

datatype optString = Undefined | Null | Str string

record insertMarker =
  insTitle :: string
  insDescription :: optString
  insLatitude :: rat
  insLongitude :: rat
  insColor :: optString

definition stringIssue :: "string \<Rightarrow> json option \<Rightarrow> string list" where
  "stringIssue path v = (case v of Some (JStr _) \<Rightarrow> [] | _ \<Rightarrow> [path])"

definition optStringIssue :: "string \<Rightarrow> nat option \<Rightarrow> json option \<Rightarrow> string list" where
  "optStringIssue path maxLen v =
     (case v of
        None \<Rightarrow> []
      | Some JNull \<Rightarrow> []
      | Some (JStr s) \<Rightarrow>
          (case maxLen of None \<Rightarrow> [] | Some n \<Rightarrow> if length s \<le> n then [] else [path])
      | _ \<Rightarrow> [path])"

definition numberIssue :: "realColumn \<Rightarrow> string \<Rightarrow> json option \<Rightarrow> string list" where
  "numberIssue col path v =
     (case v of Some (JNum x) \<Rightarrow> if realColumnCheck col x then [] else [path] | _ \<Rightarrow> [path])"

definition toOptString :: "json option \<Rightarrow> optString" where
  "toOptString v = (case v of Some (JStr s) \<Rightarrow> Str s | Some _ \<Rightarrow> Null | None \<Rightarrow> Undefined)"

definition jsonString :: "json option \<Rightarrow> string" where
  "jsonString v = (case v of Some (JStr s) \<Rightarrow> s | _ \<Rightarrow> [])"

definition jsonNumber :: "json option \<Rightarrow> rat" where
  "jsonNumber v = (case v of Some (JNum x) \<Rightarrow> x | _ \<Rightarrow> 0)"

text \<open>
  \<open>insertMarkerSchema.parse\<close>: the paths of the issues (a \<open>ZodError\<close>), or the parsed data
  \<open>dataOf b\<close> when there is none.
\<close>

definition dataOf :: "markerBody \<Rightarrow> insertMarker" where
  "dataOf b =
     \<lparr>insTitle = jsonString (bodyTitle b),
      insDescription = toOptString (bodyDescription b),
      insLatitude = jsonNumber (bodyLatitude b),
      insLongitude = jsonNumber (bodyLongitude b),
      insColor = toOptString (bodyColor b)\<rparr>"

definition insertMarkerSchema :: "realColumn \<Rightarrow> markerBody \<Rightarrow> string list + insertMarker" where
  "insertMarkerSchema col b =
     (let issues = stringIssue ''title'' (bodyTitle b)
                   @ optStringIssue ''description'' None (bodyDescription b)
                   @ numberIssue col ''latitude'' (bodyLatitude b)
                   @ numberIssue col ''longitude'' (bodyLongitude b)
                   @ optStringIssue ''color'' (Some 7) (bodyColor b)
      in if issues \<noteq> [] then Inl issues else Inr (dataOf b))"

text \<open>
  What the handler does not decide itself is its environment: the version of the schema
  library, the database and the clock. \<open>envReal4 x\<close> is the single-precision number a
  \<open>real\<close> column stores for \<open>x\<close>; \<open>envRefuses\<close> tells whether the insert of the given data
  throws (the database is not reachable, or it refuses a value); \<open>envUuid\<close> is the key
  \<open>gen_random_uuid()\<close> yields and \<open>envNow\<close> the time of \<open>defaultNow()\<close>.
\<close>

record backendEnv =
  envRealColumn :: realColumn
  envReal4 :: "rat \<Rightarrow> rat"
  envRefuses :: "insertMarker \<Rightarrow> bool"
  envUuid :: string
  envNow :: nat

text \<open>
  A row of the \<open>markers\<close> table. \<open>createMarker\<close> (\<open>db.insert(markers).values(...).returning()\<close>)
  inserts one and returns it, or throws: the id and \<open>createdAt\<close> are the column defaults,
  an absent colour is the default colour, an absent description is null, the two numbers
  are stored in single precision.
\<close>

record marker =
  markerId :: string
  title :: string
  description :: "string option"
  latitude :: rat
  longitude :: rat
  color :: "string option"
  createdAt :: nat

datatype storageError = InsertFailed

definition columnValue :: "string option \<Rightarrow> optString \<Rightarrow> string option" where
  "columnValue dflt v = (case v of Undefined \<Rightarrow> dflt | Null \<Rightarrow> None | Str s \<Rightarrow> Some s)"

definition createMarker ::
  "backendEnv \<Rightarrow> insertMarker \<Rightarrow> marker list \<Rightarrow> storageError + marker \<times> marker list" where
  "createMarker env ins db =
     (if envRefuses env ins then Inl InsertFailed
      else
        (let row = \<lparr>markerId = envUuid env, title = insTitle ins,
                     description = columnValue None (insDescription ins),
                     latitude = envReal4 env (insLatitude ins),
                     longitude = envReal4 env (insLongitude ins),
                     color = columnValue (Some ''#3b82f6'') (insColor ins),
                     createdAt = envNow env\<rparr>
         in Inr (row, db @ [row])))"

text \<open>
  The handler of \<open>POST /api/markers\<close>: 201 with the row, 400 with the issues of a
  \<open>ZodError\<close>, 500 for any other error, which here is a failed insert.
\<close>

datatype markerResponse = Created marker | BadRequest "string list" | ServerError

definition status :: "markerResponse \<Rightarrow> nat" where
  "status r = (case r of Created _ \<Rightarrow> 201 | BadRequest _ \<Rightarrow> 400 | ServerError \<Rightarrow> 500)"

definition postMarkers ::
  "backendEnv \<Rightarrow> markerBody \<Rightarrow> marker list \<Rightarrow> markerResponse \<times> marker list" where
  "postMarkers env body db =
     (case insertMarkerSchema (envRealColumn env) body of
        Inl issues \<Rightarrow> (BadRequest issues, db)
      | Inr markerData \<Rightarrow>
          (case createMarker env markerData db of
             Inl _ \<Rightarrow> (ServerError, db)
           | Inr (m, db') \<Rightarrow> (Created m, db')))"

subsection \<open>Route search\<close>

text \<open>
  \<open>POST /api/routes/search\<close> on the body the client sends (three strings):
  \<open>routeSearchSchema\<close> wants \<open>start\<close> and \<open>end\<close> of length at least 1 and a \<open>mode\<close> of the
  enumeration; the answer is the fixed list \<open>mockRoutes\<close>, of type \<open>RouteResult\<close>, which has
  no \<open>geometry\<close> field. \<open>backend\<close> is what \<open>fetch\<close> then yields to the client.
\<close>

definition routeSearchSchema :: "searchRequest \<Rightarrow> bool" where
  "routeSearchSchema b =
     (length (reqStart b) \<ge> 1 \<and> length (reqEnd b) \<ge> 1
      \<and> reqMode b \<in> set [''driving'', ''walking'', ''transit'', ''bicycling''])"

definition walkStep :: "string \<Rightarrow> string \<Rightarrow> string \<Rightarrow> routeStep" where
  "walkStep i d t =
     \<lparr>instruction = i, stepDistance = Some d, stepDuration = Some t, transitDetails = None\<rparr>"

definition rideStep :: "string \<Rightarrow> string \<Rightarrow> string \<Rightarrow> transitDetails \<Rightarrow> routeStep" where
  "rideStep i d t td =
     \<lparr>instruction = i, stepDistance = Some d, stepDuration = Some t, transitDetails = Some td\<rparr>"

definition mockBounds :: routeBounds where
  "mockBounds =
     \<lparr>southwest = \<lparr>bLat = 3569 / 100, bLng = - 65 / 100\<rparr>,
      northeast = \<lparr>bLat = 35705 / 1000, bLng = - 62 / 100\<rparr>\<rparr>"

definition mockRoutes :: "searchRequest \<Rightarrow> route list" where
  "mockRoutes searchData =
     [\<lparr>duration = ''45 min'', distance = ''12.5 km'',
       steps =
         [walkStep (''Walk to Arr'' @ [CHR 0xEA] @ ''t Universit'' @ [CHR 0xE9]) ''150m'' ''2 min'',
          rideStep ''Take Bus Line 12 towards Centre Ville'' ''8.2km'' ''25 min''
            \<lparr>line = ''Line 12'', vehicle = ''Bus'',
             stop = ''Arr'' @ [CHR 0xEA] @ ''t Place d'' @ [CHR 0x27] @ ''Armes''\<rparr>,
          walkStep ''Transfer to Bus Line 6'' ''50m'' ''1 min'',
          rideStep (''Take Bus Line 6 towards '' @ reqEnd searchData) ''3.8km'' ''15 min''
            \<lparr>line = ''Line 6'', vehicle = ''Bus'', stop = reqEnd searchData\<rparr>,
          walkStep ''Walk to destination'' ''200m'' ''2 min''],
       bounds = Some mockBounds, geometry = None\<rparr>,
      \<lparr>duration = ''52 min'', distance = ''14.2 km'',
       steps =
         [walkStep (''Walk to Arr'' @ [CHR 0xEA] @ ''t Facult'' @ [CHR 0xE9]) ''200m'' ''3 min'',
          rideStep ''Take Tram Line 1 towards Senia'' ''10.5km'' ''30 min''
            \<lparr>line = ''Line 1'', vehicle = ''Tram'',
             stop = ''Arr'' @ [CHR 0xEA] @ ''t R'' @ [CHR 0xE9] @ ''publique''\<rparr>,
          walkStep ''Transfer to Bus Line 8'' ''100m'' ''2 min'',
          rideStep (''Take Bus Line 8 towards '' @ reqEnd searchData) ''3.5km'' ''15 min''
            \<lparr>line = ''Line 8'', vehicle = ''Bus'', stop = reqEnd searchData\<rparr>,
          walkStep ''Walk to destination'' ''150m'' ''2 min''],
       bounds = Some mockBounds, geometry = None\<rparr>]"

definition backend :: "searchRequest \<Rightarrow> fetchResult" where
  "backend req =
     (if routeSearchSchema req then Response True (Some (mockRoutes req))
      else Response False None)"

subsection \<open>What is drawn for routes\<close>

definition routeLayers :: "engine \<Rightarrow> layerSpec list" where
  "routeLayers e = filter (\<lambda>l. startsWith (layerId l) ''route-layer-'') (layers e)"

definition routeSources :: "engine \<Rightarrow> (string \<times> sourceData) list" where
  "routeSources e = filter (\<lambda>s. startsWith (fst s) ''route-'') (sources e)"

text \<open>
  What the statements below need to speak about the drawing: the routes of a list that
  carry a geometry with coordinates, each with its index; the source, the layer and the
  calls \<open>displayRoutesOnMap\<close> makes for one of them; the calls that take the listeners off
  a layer; and the route layers, route sources and call log of a world.
\<close>

definition hasGeometry :: "route \<Rightarrow> bool" where
  "hasGeometry r = (case geometry r of None \<Rightarrow> False | Some g \<Rightarrow> coordinates g \<noteq> None)"

definition drawn :: "nat \<Rightarrow> route list \<Rightarrow> (nat \<times> route) list" where
  "drawn n routes = filter (\<lambda>ir. hasGeometry (snd ir)) (enumerate n routes)"

definition sourceOf :: "nat \<times> route \<Rightarrow> string \<times> sourceData" where
  "sourceOf ir =
     (''route-'' @ decimal (fst ir), routeSource (fst ir) (snd ir) (the (geometry (snd ir))))"

definition layerOf :: "nat \<times> route \<Rightarrow> layerSpec" where
  "layerOf ir = routeLayer (fst ir)"

definition addCalls :: "nat \<times> route \<Rightarrow> mapCall list" where
  "addCalls ir =
     [AddSource (fst (sourceOf ir)) (snd (sourceOf ir)), AddLayer (layerOf ir),
      OnLayer ''click'' (layerId (layerOf ir)), OnLayer ''mouseenter'' (layerId (layerOf ir)),
      OnLayer ''mouseleave'' (layerId (layerOf ir))]"

definition offs :: "string \<Rightarrow> mapCall list" where
  "offs lid = [OffLayer ''click'' lid, OffLayer ''mouseenter'' lid, OffLayer ''mouseleave'' lid]"

definition layersOnMap :: "world \<Rightarrow> layerSpec list" where
  "layersOnMap w = (case mapCurrent w of None \<Rightarrow> [] | Some e \<Rightarrow> routeLayers e)"

definition sourcesOnMap :: "world \<Rightarrow> (string \<times> sourceData) list" where
  "sourcesOnMap w = (case mapCurrent w of None \<Rightarrow> [] | Some e \<Rightarrow> routeSources e)"

definition callsOf :: "world \<Rightarrow> mapCall list" where
  "callsOf w = (case mapCurrent w of None \<Rightarrow> [] | Some e \<Rightarrow> calls e)"

definition markersOnMap :: "world \<Rightarrow> (nat \<times> markerSpec) list" where
  "markersOnMap w = (case mapCurrent w of None \<Rightarrow> [] | Some e \<Rightarrow> markers e)"

definition greenMarkers :: "world \<Rightarrow> (nat \<times> markerSpec) list" where
  "greenMarkers w = filter (\<lambda>m. markerColor (snd m) = ''#10b981'') (markersOnMap w)"

text \<open>
  The style is \<open>owned\<close> when only route layers use the sources named \<open>route-...\<close>: then no
  removal of such a source is refused once the route layers are gone. The component
  keeps it so, and a base style that names no source \<open>route-...\<close> has it.
\<close>

definition owned :: "engine \<Rightarrow> bool" where
  "owned e =
     list_all (\<lambda>l. startsWith (layerSource l) ''route-'' \<longrightarrow> startsWith (layerId l) ''route-layer-'')
       (layers e)"

text \<open>
  A list of calls is \<open>safe\<close> from an engine state when at most one picking listener is
  bound before, between and after its calls. \<open>boundInv\<close> relates the engine to the effect
  state: the only picking listener that can be bound is the closure of the last run.
\<close>

fun safe :: "mapCall list \<Rightarrow> engine \<Rightarrow> bool" where
  "safe [] e = (length (pickingBound e) \<le> 1)"
| "safe (c # cs) e = (length (pickingBound e) \<le> 1 \<and> safe cs (exec c e))"

definition boundInv :: "bool \<Rightarrow> engine \<Rightarrow> effectState \<Rightarrow> bool" where
  "boundInv live e s =
     (pickingBound e = [] \<or> (live \<and> pickingBound e = [LocationClick (effRender s)]))"

text \<open>The value of a decimal numeral, to tell the ids of two indices apart.\<close>

definition digitVal :: "char \<Rightarrow> nat" where
  "digitVal ch = of_char ch - 48"

definition undecimal :: "string \<Rightarrow> nat" where
  "undecimal s = foldl (\<lambda>a ch. 10 * a + digitVal ch) 0 s"

text \<open>
  A value under a key is a number; a value under an optional key is absent, null or a string
  of at most the given length.
\<close>

definition isNumber :: "json option \<Rightarrow> bool" where
  "isNumber v = (case v of Some (JNum _) \<Rightarrow> True | _ \<Rightarrow> False)"

definition optionalText :: "nat option \<Rightarrow> json option \<Rightarrow> bool" where
  "optionalText maxLen v =
     (case v of
        None \<Rightarrow> True
      | Some JNull \<Rightarrow> True
      | Some (JStr s) \<Rightarrow> (case maxLen of None \<Rightarrow> True | Some n \<Rightarrow> length s \<le> n)
      | _ \<Rightarrow> False)"

subsection \<open>Concrete states and inputs\<close>

text \<open>
  The world after mount on a style without layers; a route with a geometry and one
  without; the click of scenario C, whose coordinates are the numbers that the literals
  \<open>-0.63\<close> and \<open>35.70\<close> denote in JavaScript; a marker body with latitude 100 and
  longitude 200 and one with latitude 91 and longitude -181; a backend environment for
  each version of the schema library, whose database refuses nothing (the numbers of the
  two bodies are single-precision numbers, which a \<open>real\<close> column stores unchanged, so
  \<open>envReal4\<close> is the identity there); a world with stored results, the world after that
  click in mode \<open>'start'\<close>, and a world with one route drawn.
\<close>

definition mountedWorld :: world where
  "mountedWorld = \<lparr>view = initialView, mapCurrent = Some (newMap [] []), requests = [], console = []\<rparr>"

definition lineRoute :: route where
  "lineRoute =
     \<lparr>duration = ''10 min'', distance = ''2 km'', steps = [], bounds = None,
      geometry = Some \<lparr>coordinates = Some [(- 63 / 100, 357 / 10), (- 65 / 100, 3569 / 100)]\<rparr>\<rparr>"

definition plainRoute :: route where
  "plainRoute =
     \<lparr>duration = ''45 min'', distance = ''12.5 km'', steps = [], bounds = None, geometry = None\<rparr>"

definition scenarioClick :: lngLat where
  "scenarioClick = \<lparr>lng = - (5674535530486825 / 2 ^ 53), lat = 2512164167142605 / 2 ^ 46\<rparr>"

definition farNorthBody :: markerBody where
  "farNorthBody =
     \<lparr>bodyTitle = Some (JStr ''North''), bodyDescription = None,
      bodyLatitude = Some (JNum 100), bodyLongitude = Some (JNum 200), bodyColor = None\<rparr>"

definition plainEnv :: backendEnv where
  "plainEnv =
     \<lparr>envRealColumn = PlainNumber, envReal4 = (\<lambda>x. x), envRefuses = (\<lambda>ins. False),
      envUuid = ''m1'', envNow = 0\<rparr>"

definition boundedEnv :: backendEnv where
  "boundedEnv = plainEnv\<lparr>envRealColumn := Int24Bounds\<rparr>"

definition nearOranBody :: markerBody where
  "nearOranBody =
     \<lparr>bodyTitle = Some (JStr ''Oran''), bodyDescription = Some (JStr ''Place d Armes''),
      bodyLatitude = Some (JNum 91), bodyLongitude = Some (JNum (- 181)),
      bodyColor = Some (JStr ''#10b981'')\<rparr>"

definition resultsWorld :: world where
  "resultsWorld =
     mountedWorld\<lparr>view := initialView\<lparr>startLocation := ''A'', endLocation := ''B'',
                                         routeResults := [plainRoute]\<rparr>\<rparr>"

definition pickedWorld :: world where
  "pickedWorld =
     handleLocationClick (initialView\<lparr>clickMode := CM_start\<rparr>) scenarioClick
       (mountedWorld\<lparr>view := initialView\<lparr>clickMode := CM_start\<rparr>\<rparr>)"

definition routedWorld :: world where
  "routedWorld =
     \<lparr>view = initialView\<lparr>showRoutePanel := True, startLocation := ''A'', endLocation := ''B'',
                          routeResults := [lineRoute],
                          activeRouteHandlers := [layerId (layerOf (0, lineRoute))],
                          clickMode := CM_end\<rparr>,
      mapCurrent = Some (newMap [layerOf (0, lineRoute)] [sourceOf (0, lineRoute)]),
      requests = [], console = []\<rparr>"

section \<open>Auxiliary facts\<close>

subsection \<open>Decimal numerals of different indices differ\<close>

lemma digitVal_digitChar: "d < 10 \<Longrightarrow> digitVal (digitChar d) = d"
proof -
  assume "d < 10"
  then have "d = 0 \<or> d = 1 \<or> d = 2 \<or> d = 3 \<or> d = 4 \<or> d = 5 \<or> d = 6
    \<or> d = 7 \<or> d = 8 \<or> d = 9" by arith
  then show ?thesis
    by (elim disjE) (simp_all add: digitChar_def digitVal_def)
qed

lemma undecimal_decimal: "undecimal (decimal n) = n"
proof (induction n rule: decimal.induct)
  case (1 n)
  show ?case
  proof (cases "n < 10")
    case True
    then show ?thesis
      by (simp add: decimal.simps[of n] undecimal_def digitVal_digitChar)
  next
    case False
    then have "undecimal (decimal (n div 10)) = n div 10" using 1 by simp
    moreover have "decimal n = decimal (n div 10) @ [digitChar (n mod 10)]"
      using False by (subst decimal.simps) simp
    ultimately show ?thesis
      by (simp add: undecimal_def digitVal_digitChar)
  qed
qed

lemma decimal_inj: "decimal n = decimal m \<Longrightarrow> n = m"
  by (metis undecimal_decimal)

lemma routeLayer_id_inj: "layerId (routeLayer i) = layerId (routeLayer j) \<Longrightarrow> i = j"
  by (simp add: routeLayer_def decimal_inj)

subsection \<open>Clearing the route overlays\<close>

lemma exec_OffLayer [simp]: "exec (OffLayer ty lid) e = e\<lparr>calls := calls e @ [OffLayer ty lid]\<rparr>"
  by (simp add: exec_def)

lemma getLayer_calls [simp]: "getLayer lid (e\<lparr>calls := cs\<rparr>) = getLayer lid e"
  by (simp add: getLayer_def)

lemma getSource_calls [simp]: "getSource sid (e\<lparr>calls := cs\<rparr>) = getSource sid e"
  by (simp add: getSource_def)

lemma detachLayer_eq:
  "detachLayer h e = e\<lparr>calls := calls e @ (if getLayer h e then offs h else [])\<rparr>"
  by (simp add: detachLayer_def offs_def)

lemma fold_detach:
  "fold detachLayer hs e = e\<lparr>calls := calls e @ concat (map offs (filter (\<lambda>h. getLayer h e) hs))\<rparr>"
proof (induction hs arbitrary: e)
  case Nil
  then show ?case by simp
next
  case (Cons h hs)
  show ?case
    apply (simp only: fold_simps Cons)
    apply (simp add: detachLayer_eq)
    done
qed

lemma exec_RemoveLayer:
  "exec (RemoveLayer lid) e =
     e\<lparr>layers := filter (\<lambda>l. layerId l \<noteq> lid) (layers e), calls := calls e @ [RemoveLayer lid]\<rparr>"
  by (simp add: exec_def)

lemma dropLayer_eq:
  "dropLayer l e =
     (if startsWith (layerId l) ''route-layer-'' \<and> getLayer (layerId l) e
      then e\<lparr>layers := filter (\<lambda>k. layerId k \<noteq> layerId l) (layers e),
             calls := calls e @ [RemoveLayer (layerId l)]\<rparr>
      else e)"
  by (auto simp add: dropLayer_def exec_RemoveLayer startsWith_def)

lemma fold_dropLayer_layers:
  "layers (fold dropLayer ls e) =
     filter (\<lambda>k. \<not> (startsWith (layerId k) ''route-layer-'' \<and> layerId k \<in> layerId ` set ls)) (layers e)"
proof (induction ls arbitrary: e)
  case Nil
  then show ?case by simp
next
  case (Cons l ls)
  show ?case
    apply (simp only: fold_simps Cons)
    apply (auto simp add: dropLayer_eq getLayer_def intro!: filter_cong)
    apply (metis image_eqI)
    done
qed

lemma fold_dropLayer_other:
  "sources (fold dropLayer ls e) = sources e"
  "markers (fold dropLayer ls e) = markers e"
  "nextMarker (fold dropLayer ls e) = nextMarker e"
  "clickListeners (fold dropLayer ls e) = clickListeners e"
  "cursor (fold dropLayer ls e) = cursor e"
  "fitted (fold dropLayer ls e) = fitted e"
  by (induction ls arbitrary: e; simp only: fold_simps; simp add: dropLayer_eq)+

lemma exec_RemoveSource:
  "exec (RemoveSource sid) e =
     (if sourceInUse sid e then e\<lparr>calls := calls e @ [RemoveSource sid]\<rparr>
      else e\<lparr>sources := filter (\<lambda>s. fst s \<noteq> sid) (sources e), calls := calls e @ [RemoveSource sid]\<rparr>)"
  by (simp add: exec_def)

lemma dropSource_eq:
  "dropSource sid e =
     (if startsWith sid ''route-'' \<and> getSource sid e
      then exec (RemoveSource sid) e else e)"
  by (simp add: dropSource_def)

lemma fold_dropSource_layers: "layers (fold dropSource ss e) = layers e"
  by (induction ss arbitrary: e; simp only: fold_simps; simp add: dropSource_eq exec_RemoveSource)

lemma fold_dropSource_other:
  "markers (fold dropSource ss e) = markers e"
  "nextMarker (fold dropSource ss e) = nextMarker e"
  "clickListeners (fold dropSource ss e) = clickListeners e"
  "cursor (fold dropSource ss e) = cursor e"
  "fitted (fold dropSource ss e) = fitted e"
  by (induction ss arbitrary: e; simp only: fold_simps; simp add: dropSource_eq exec_RemoveSource)+

lemma sourceInUse_upd [simp]:
  "sourceInUse sid (e\<lparr>calls := cs\<rparr>) = sourceInUse sid e"
  "sourceInUse sid (e\<lparr>sources := ss\<rparr>) = sourceInUse sid e"
  by (simp_all add: sourceInUse_def)

lemma fold_dropSource_sources:
  "sources (fold dropSource ss e) =
     filter (\<lambda>s. \<not> (startsWith (fst s) ''route-'' \<and> fst s \<in> set ss \<and> \<not> sourceInUse (fst s) e)) (sources e)"
proof (induction ss arbitrary: e)
  case Nil
  then show ?case by simp
next
  case (Cons sid ss)
  show ?case
    apply (simp only: fold_simps Cons)
    apply (auto simp add: dropSource_eq exec_RemoveSource getSource_def intro!: filter_cong)
    done
qed

subsection \<open>Drawing the routes\<close>

lemma addRoute_skip: "\<not> hasGeometry (snd ir) \<Longrightarrow> addRoute ir w = w"
proof (cases "geometry (snd ir)")
  case None
  then show ?thesis by (simp add: addRoute_def)
next
  case (Some g)
  assume "\<not> hasGeometry (snd ir)"
  then have "coordinates g = None" using Some by (simp add: hasGeometry_def)
  then show ?thesis using Some by (simp add: addRoute_def)
qed

lemma onMap_Some: "mapCurrent w = Some e \<Longrightarrow> onMap f w = w\<lparr>mapCurrent := Some (f e)\<rparr>"
  by (simp add: onMap_def)

lemma addRoute_draw:
  assumes "mapCurrent w = Some e" and "hasGeometry (snd ir)"
    and "\<not> getSource (''route-'' @ decimal (fst ir)) e"
    and "\<not> getLayer (''route-layer-'' @ decimal (fst ir)) e"
  shows "addRoute ir w =
     w\<lparr>mapCurrent := Some (e\<lparr>sources := sources e @ [sourceOf ir],
                              layers := layers e @ [layerOf ir],
                              calls := calls e @ addCalls ir\<rparr>),
       view := (view w)\<lparr>activeRouteHandlers :=
                 activeRouteHandlers (view w) @ [layerId (layerOf ir)]\<rparr>\<rparr>"
proof -
  obtain g cs where g: "geometry (snd ir) = Some g" "coordinates g = Some cs"
    using assms(2) by (auto simp add: hasGeometry_def split: option.splits)
  have l: "layerId (routeLayer (fst ir)) = ''route-layer-'' @ decimal (fst ir)"
    by (simp add: routeLayer_def)
  show ?thesis
    using assms(1,3,4) g l
    by (simp add: addRoute_def Let_def onMap_def setView_def exec_def
        getLayer_def getSource_def sourceOf_def layerOf_def addCalls_def)
qed

lemma drawn_Cons:
  "drawn n (r # rs) = (if hasGeometry r then (n, r) # drawn (Suc n) rs else drawn (Suc n) rs)"
  by (simp add: drawn_def)

lemma fold_addRoute:
  assumes "mapCurrent w = Some e"
    and "\<forall>j\<ge>n. \<not> getSource (''route-'' @ decimal j) e \<and> \<not> getLayer (''route-layer-'' @ decimal j) e"
  shows "fold addRoute (enumerate n rs) w =
     w\<lparr>mapCurrent := Some (e\<lparr>sources := sources e @ map sourceOf (drawn n rs),
                              layers := layers e @ map layerOf (drawn n rs),
                              calls := calls e @ concat (map addCalls (drawn n rs))\<rparr>),
       view := (view w)\<lparr>activeRouteHandlers :=
                 activeRouteHandlers (view w) @ map (\<lambda>ir. layerId (layerOf ir)) (drawn n rs)\<rparr>\<rparr>"
  using assms
proof (induction rs arbitrary: n w e)
  case Nil
  then show ?case by (simp add: drawn_def)
next
  case (Cons r rs)
  have free: "\<forall>j\<ge>Suc n. \<not> getSource (''route-'' @ decimal j) e
                \<and> \<not> getLayer (''route-layer-'' @ decimal j) e"
    using Cons.prems(2) by simp
  show ?case
  proof (cases "hasGeometry r")
    case False
    then have "addRoute (n, r) w = w" by (simp add: addRoute_skip)
    then show ?thesis
      using Cons.IH [OF Cons.prems(1) free] False by (simp add: drawn_Cons)
  next
    case True
    define e' where "e' = e\<lparr>sources := sources e @ [sourceOf (n, r)],
                             layers := layers e @ [layerOf (n, r)],
                             calls := calls e @ addCalls (n, r)\<rparr>"
    define w' where "w' = w\<lparr>mapCurrent := Some e',
       view := (view w)\<lparr>activeRouteHandlers :=
                 activeRouteHandlers (view w) @ [layerId (layerOf (n, r))]\<rparr>\<rparr>"
    have step: "addRoute (n, r) w = w'"
      using addRoute_draw [of w e "(n, r)"] Cons.prems True by (simp add: w'_def e'_def)
    have m: "mapCurrent w' = Some e'" by (simp add: w'_def)
    have free': "\<forall>j\<ge>Suc n. \<not> getSource (''route-'' @ decimal j) e'
                \<and> \<not> getLayer (''route-layer-'' @ decimal j) e'"
    proof (intro allI impI)
      fix j assume j: "Suc n \<le> j"
      then have "decimal j \<noteq> decimal n" using decimal_inj [of j n] by auto
      then show "\<not> getSource (''route-'' @ decimal j) e'
                \<and> \<not> getLayer (''route-layer-'' @ decimal j) e'"
        using free j
        by (simp add: e'_def getSource_def getLayer_def sourceOf_def layerOf_def routeLayer_def)
    qed
    have "fold addRoute (enumerate n (r # rs)) w = fold addRoute (enumerate (Suc n) rs) w'"
      by (simp add: step)
    also note Cons.IH [OF m free']
    finally show ?thesis
      using True by (simp add: drawn_Cons w'_def e'_def)
  qed
qed

lemma fold_detach_fields:
  "layers (fold detachLayer hs e) = layers e"
  "sources (fold detachLayer hs e) = sources e"
  "markers (fold detachLayer hs e) = markers e"
  "nextMarker (fold detachLayer hs e) = nextMarker e"
  "clickListeners (fold detachLayer hs e) = clickListeners e"
  "cursor (fold detachLayer hs e) = cursor e"
  "fitted (fold detachLayer hs e) = fitted e"
  "calls (fold detachLayer hs e) = calls e @ concat (map offs (filter (\<lambda>h. getLayer h e) hs))"
  by (simp_all add: fold_detach)

lemma clear_layers:
  "layers (clearRoutesEngine hs e) = filter (\<lambda>k. \<not> startsWith (layerId k) ''route-layer-'') (layers e)"
  by (auto simp add: clearRoutesEngine_def Let_def fold_dropSource_layers fold_dropLayer_layers
      fold_detach_fields intro!: filter_cong)

lemma clear_other:
  "markers (clearRoutesEngine hs e) = markers e"
  "nextMarker (clearRoutesEngine hs e) = nextMarker e"
  "clickListeners (clearRoutesEngine hs e) = clickListeners e"
  "cursor (clearRoutesEngine hs e) = cursor e"
  "fitted (clearRoutesEngine hs e) = fitted e"
  by (simp_all add: clearRoutesEngine_def Let_def fold_dropSource_other fold_dropLayer_other
      fold_detach_fields)

lemma clear_sources:
  assumes "owned e"
  shows "sources (clearRoutesEngine hs e) = filter (\<lambda>s. \<not> startsWith (fst s) ''route-'') (sources e)"
proof -
  let ?e1 = "fold detachLayer hs e"
  let ?e2 = "fold dropLayer (layers ?e1) ?e1"
  have "\<not> sourceInUse sid ?e2" if "startsWith sid ''route-''" for sid
    using that assms
    by (auto simp add: sourceInUse_def fold_dropLayer_layers fold_detach_fields owned_def
        list_all_iff)
  then show ?thesis
    by (auto simp add: clearRoutesEngine_def Let_def fold_dropSource_sources
        fold_dropLayer_other fold_detach_fields intro!: filter_cong)
qed

lemma fold_dropLayer_calls:
  assumes "distinct (map layerId (filter (\<lambda>l. startsWith (layerId l) ''route-layer-'') ls))"
    and "\<forall>l\<in>set ls. startsWith (layerId l) ''route-layer-'' \<longrightarrow> getLayer (layerId l) e"
  shows "calls (fold dropLayer ls e) =
     calls e @ map (\<lambda>l. RemoveLayer (layerId l)) (filter (\<lambda>l. startsWith (layerId l) ''route-layer-'') ls)"
  using assms
proof (induction ls arbitrary: e)
  case Nil
  then show ?case by simp
next
  case (Cons l ls)
  show ?case
  proof (cases "startsWith (layerId l) ''route-layer-''")
    case False
    then have "dropLayer l e = e" by (simp add: dropLayer_eq)
    then show ?thesis using Cons False by simp
  next
    case True
    let ?e' = "e\<lparr>layers := filter (\<lambda>k. layerId k \<noteq> layerId l) (layers e),
             calls := calls e @ [RemoveLayer (layerId l)]\<rparr>"
    have step: "dropLayer l e = ?e'" using True Cons.prems(2) by (simp add: dropLayer_eq)
    have d: "distinct (map layerId (filter (\<lambda>l. startsWith (layerId l) ''route-layer-'') ls))"
      using Cons.prems(1) True by simp
    have p: "\<forall>k\<in>set ls. startsWith (layerId k) ''route-layer-'' \<longrightarrow> getLayer (layerId k) ?e'"
    proof (intro ballI impI)
      fix k assume k: "k \<in> set ls" "startsWith (layerId k) ''route-layer-''"
      have "layerId k \<in> set (map layerId (filter (\<lambda>l. startsWith (layerId l) ''route-layer-'') ls))"
        using k by simp
      moreover have "layerId l \<notin> set (map layerId (filter (\<lambda>l. startsWith (layerId l) ''route-layer-'') ls))"
        using Cons.prems(1) True by simp
      ultimately have ne: "layerId k \<noteq> layerId l" by metis
      have "getLayer (layerId k) e" using Cons.prems(2) k by simp
      then obtain x where "x \<in> set (layers e)" "layerId x = layerId k"
        by (auto simp add: getLayer_def)
      then show "getLayer (layerId k) ?e'" using ne
        by (auto simp add: getLayer_def image_iff intro!: bexI [of _ x])
    qed
    have "calls (fold dropLayer (l # ls) e) = calls (fold dropLayer ls ?e')"
      by (simp only: fold_simps step)
    also note Cons.IH [OF d p]
    finally show ?thesis using True by simp
  qed
qed

lemma fold_dropSource_calls:
  assumes "distinct (filter (\<lambda>s. startsWith s ''route-'') ss)"
    and "\<forall>s\<in>set ss. startsWith s ''route-'' \<longrightarrow> getSource s e"
  shows "calls (fold dropSource ss e) =
     calls e @ map RemoveSource (filter (\<lambda>s. startsWith s ''route-'') ss)"
  using assms
proof (induction ss arbitrary: e)
  case Nil
  then show ?case by simp
next
  case (Cons s ss)
  show ?case
  proof (cases "startsWith s ''route-''")
    case False
    then have "dropSource s e = e" by (simp add: dropSource_eq)
    then show ?thesis using Cons False by simp
  next
    case True
    let ?e' = "exec (RemoveSource s) e"
    have step: "dropSource s e = ?e'" using True Cons.prems(2) by (simp add: dropSource_eq)
    have d: "distinct (filter (\<lambda>s. startsWith s ''route-'') ss)"
      using Cons.prems(1) True by simp
    have p: "\<forall>k\<in>set ss. startsWith k ''route-'' \<longrightarrow> getSource k ?e'"
    proof (intro ballI impI)
      fix k assume k: "k \<in> set ss" "startsWith k ''route-''"
      have ne: "k \<noteq> s" using Cons.prems(1) True k by auto
      have "getSource k e" using Cons.prems(2) k by simp
      then obtain d where "(k, d) \<in> set (sources e)"
        by (auto simp add: getSource_def)
      then show "getSource k ?e'" using ne
        by (auto simp add: getSource_def exec_RemoveSource image_iff intro!: bexI [of _ "(k, d)"])
    qed
    have c: "calls ?e' = calls e @ [RemoveSource s]" by (simp add: exec_RemoveSource)
    have "calls (fold dropSource (s # ss) e) = calls (fold dropSource ss ?e')"
      by (simp only: fold_simps step)
    also note Cons.IH [OF d p]
    finally show ?thesis using True c by simp
  qed
qed

lemma clear_calls:
  assumes "distinct (map layerId (routeLayers e))" and "distinct (map fst (routeSources e))"
  shows "calls (clearRoutesEngine hs e) =
     calls e @ concat (map offs (filter (\<lambda>h. getLayer h e) hs))
       @ map (\<lambda>l. RemoveLayer (layerId l)) (routeLayers e)
       @ map (\<lambda>s. RemoveSource (fst s)) (routeSources e)"
proof -
  let ?e1 = "fold detachLayer hs e"
  let ?e2 = "fold dropLayer (layers e) ?e1"
  have a: "calls ?e2 = calls ?e1 @ map (\<lambda>l. RemoveLayer (layerId l)) (routeLayers e)"
    using fold_dropLayer_calls [of "layers e" ?e1] assms(1)
    by (simp add: routeLayers_def fold_detach_fields getLayer_def)
  have f: "filter (\<lambda>s. startsWith s ''route-'') (map fst (sources e)) = map fst (routeSources e)"
    by (simp add: routeSources_def filter_map comp_def)
  have b: "calls (fold dropSource (map fst (sources e)) ?e2) =
       calls ?e2 @ map RemoveSource (map fst (routeSources e))"
    using fold_dropSource_calls [of "map fst (sources e)" ?e2] assms(2)
    by (simp add: f fold_detach_fields fold_dropLayer_other getSource_def)
  show ?thesis
    by (simp add: clearRoutesEngine_def Let_def a b fold_detach_fields comp_def)
qed

lemma route_prefixes:
  "startsWith (''route-'' @ x) ''route-''"
  "startsWith (''route-layer-'' @ x) ''route-layer-''"
  by (simp_all add: startsWith_def)

lemma layerOf_simps [simp]:
  "layerId (layerOf ir) = ''route-layer-'' @ decimal (fst ir)"
  "layerSource (layerOf ir) = ''route-'' @ decimal (fst ir)"
  "fst (sourceOf ir) = ''route-'' @ decimal (fst ir)"
  by (simp_all add: layerOf_def routeLayer_def sourceOf_def)

lemma distinct_drawn: "distinct (map fst (drawn n rs))"
proof -
  have "map fst (drawn n rs) = filter (\<lambda>i. hasGeometry (rs ! (i - n))) (map fst (enumerate n rs))"
    unfolding drawn_def filter_map comp_def
    by (rule arg_cong [where f = "map fst"], rule filter_cong)
       (auto simp add: in_set_enumerate_eq)
  then show ?thesis by (simp add: map_fst_enumerate)
qed

lemma distinct_ids:
  assumes "\<And>i j. f i = f j \<Longrightarrow> i = j"
  shows "distinct (map (\<lambda>ir. f (fst ir)) (drawn n rs))"
proof -
  have "inj_on f (set (map fst (drawn n rs)))"
    using assms by (auto simp add: inj_on_def)
  then have "distinct (map f (map fst (drawn n rs)))"
    using distinct_drawn [of n rs] distinct_map by blast
  then show ?thesis by (simp add: comp_def)
qed

lemma distinct_layer_ids: "distinct (map (\<lambda>ir. layerId (layerOf ir)) (drawn n rs))"
  using distinct_ids [of "\<lambda>i. ''route-layer-'' @ decimal i" n rs] decimal_inj by simp

lemma distinct_source_ids: "distinct (map (\<lambda>ir. fst (sourceOf ir)) (drawn n rs))"
  using distinct_ids [of "\<lambda>i. ''route-'' @ decimal i" n rs] decimal_inj by simp

lemma clear_world:
  assumes "mapCurrent w = Some e"
  shows "clearRouteLayersFromMap c w =
     w\<lparr>mapCurrent := Some (clearRoutesEngine (activeRouteHandlers c) e),
       view := (view w)\<lparr>activeRouteHandlers := []\<rparr>\<rparr>"
  using assms by (simp add: clearRouteLayersFromMap_def setView_def)

lemma display_eq:
  assumes "mapCurrent w = Some e" and "owned e"
  shows "displayRoutesOnMap c rs w =
     w\<lparr>mapCurrent := Some ((clearRoutesEngine (activeRouteHandlers c) e)
          \<lparr>sources := sources (clearRoutesEngine (activeRouteHandlers c) e) @ map sourceOf (drawn 0 rs),
           layers := layers (clearRoutesEngine (activeRouteHandlers c) e) @ map layerOf (drawn 0 rs),
           calls := calls (clearRoutesEngine (activeRouteHandlers c) e) @ concat (map addCalls (drawn 0 rs))\<rparr>),
       view := (view w)\<lparr>activeRouteHandlers := map (\<lambda>ir. layerId (layerOf ir)) (drawn 0 rs)\<rparr>\<rparr>"
proof -
  let ?e0 = "clearRoutesEngine (activeRouteHandlers c) e"
  let ?w1 = "clearRouteLayersFromMap c w"
  have m: "mapCurrent ?w1 = Some ?e0" using assms(1) by (simp add: clear_world)
  have ns: "\<not> getSource sid ?e0" if "startsWith sid ''route-''" for sid
    using that assms(2) by (auto simp add: getSource_def clear_sources)
  have nl: "\<not> getLayer lid ?e0" if "startsWith lid ''route-layer-''" for lid
    using that by (auto simp add: getLayer_def clear_layers)
  have free: "\<forall>j\<ge>0. \<not> getSource (''route-'' @ decimal j) ?e0
                \<and> \<not> getLayer (''route-layer-'' @ decimal j) ?e0"
    using ns nl route_prefixes by blast
  have "displayRoutesOnMap c rs w = fold addRoute (enumerate 0 rs) ?w1"
    using assms(1) by (simp add: displayRoutesOnMap_def)
  also note fold_addRoute [OF m free]
  finally show ?thesis using assms(1) by (simp add: clear_world)
qed

lemma filter_none: "(\<And>x. x \<in> set xs \<Longrightarrow> \<not> P x) \<Longrightarrow> filter P xs = []"
  by (induction xs) auto

lemma filter_all: "(\<And>x. x \<in> set xs \<Longrightarrow> P x) \<Longrightarrow> filter P xs = xs"
  by (induction xs) auto

lemma is_route_layer: "startsWith (layerId (layerOf ir)) ''route-layer-''"
  by (simp add: startsWith_def)

lemma is_route_source: "startsWith (fst (sourceOf ir)) ''route-''"
  by (simp add: startsWith_def)

lemma display_routeLayers:
  assumes "mapCurrent w = Some e" and "owned e"
  shows "map_option routeLayers (mapCurrent (displayRoutesOnMap c rs w)) = Some (map layerOf (drawn 0 rs))"
proof -
  have a: "filter (\<lambda>l. startsWith (layerId l) ''route-layer-'') (map layerOf (drawn 0 rs)) = map layerOf (drawn 0 rs)"
    by (rule filter_all) (auto simp add: startsWith_def)
  show ?thesis
    by (simp add: display_eq [OF assms] routeLayers_def clear_layers a)
qed

lemma display_routeSources:
  assumes "mapCurrent w = Some e" and "owned e"
  shows "map_option routeSources (mapCurrent (displayRoutesOnMap c rs w)) = Some (map sourceOf (drawn 0 rs))"
proof -
  have a: "filter (\<lambda>s. startsWith (fst s) ''route-'') (map sourceOf (drawn 0 rs)) = map sourceOf (drawn 0 rs)"
    by (rule filter_all) (auto simp add: startsWith_def)
  show ?thesis
    by (simp add: display_eq [OF assms] routeSources_def clear_sources [OF assms(2)] a)
qed

lemma display_owned:
  assumes "mapCurrent w = Some e" and "owned e"
  shows "\<exists>e'. mapCurrent (displayRoutesOnMap c rs w) = Some e' \<and> owned e'"
  using assms(2)
  by (auto simp add: display_eq [OF assms] owned_def clear_layers list_all_iff startsWith_def)

lemma display_handlers:
  assumes "mapCurrent w = Some e" and "owned e"
  shows "activeRouteHandlers (view (displayRoutesOnMap c rs w)) = map (\<lambda>ir. layerId (layerOf ir)) (drawn 0 rs)"
  by (simp add: display_eq [OF assms])

lemma display_calls:
  assumes "mapCurrent w = Some e" and "owned e"
  shows "map_option calls (mapCurrent (displayRoutesOnMap c rs w)) =
     Some (calls (clearRoutesEngine (activeRouteHandlers c) e) @ concat (map addCalls (drawn 0 rs)))"
  by (simp add: display_eq [OF assms])

subsection \<open>The picking listener along a trace\<close>

lemma run_simps [simp]: "run [] e = e" "run (c # cs) e = run cs (exec c e)"
  by (simp_all add: run_def)

lemma run_append: "run (a @ b) e = run b (run a e)"
  by (simp add: run_def)

lemma safe_take: "safe cs e \<Longrightarrow> length (pickingBound (run (take n cs) e)) \<le> 1"
proof (induction cs arbitrary: e n)
  case Nil
  then show ?case by simp
next
  case (Cons c cs)
  then show ?case by (cases n) simp_all
qed

lemma safe_append: "safe (a @ b) e = (safe a e \<and> safe b (run a e))"
proof (induction a arbitrary: e)
  case Nil
  then show ?case by (cases b) auto
next
  case (Cons c a)
  then show ?case by auto
qed

lemma pickingBound_exec:
  "pickingBound (exec (SetCursor s) e) = pickingBound e"
  "pickingBound (exec (OffClick (LocationClick h)) e) = remove1 (LocationClick h) (pickingBound e)"
  "pickingBound (exec (OnClick (LocationClick h)) e) = pickingBound e @ [LocationClick h]"
  by (simp_all add: pickingBound_def exec_def filter_remove1)

lemma step_safe:
  assumes "boundInv live e s"
  shows "safe (snd (uiStep live ev s)) e \<and> boundInv live (run (snd (uiStep live ev s)) e) (fst (uiStep live ev s))"
proof (cases ev)
  case OtherUpdate
  then show ?thesis using assms by (auto simp add: boundInv_def)
next
  case (SetClickMode m)
  show ?thesis
  proof (cases "m = depMode s")
    case True
    then show ?thesis using assms SetClickMode by (auto simp add: boundInv_def)
  next
    case False
    then show ?thesis
      using assms SetClickMode
      by (auto simp add: boundInv_def clickModeCleanup_def clickModeEffect_def pickingBound_exec)
  qed
qed

lemma uiCalls_safe: "boundInv live e s \<Longrightarrow> safe (uiCalls live s evs) e"
proof (induction evs arbitrary: e s)
  case Nil
  then show ?case by (auto simp add: boundInv_def)
next
  case (Cons ev evs)
  have a: "safe (snd (uiStep live ev s)) e"
    and b: "boundInv live (run (snd (uiStep live ev s)) e) (fst (uiStep live ev s))"
    using step_safe [OF Cons.prems] by simp_all
  show ?case
    using a Cons.IH [OF b] by (simp add: safe_append)
qed

lemma mount_safe:
  "safe (clickModeEffect live CM_none 0) (newMap ls ss)
   \<and> boundInv live (run (clickModeEffect live CM_none 0) (newMap ls ss)) mountState"
  by (simp add: clickModeEffect_def picking_def newMap_def pickingBound_def exec_def boundInv_def)

subsection \<open>Texts, numbers, keys and searches\<close>

lemma dropWhile_all: "(\<forall>ch\<in>set s. P ch) \<Longrightarrow> dropWhile P s = []"
  by (induction s) auto

lemma trim_empty_iff: "trim s = [] \<longleftrightarrow> (\<forall>ch\<in>set s. isWhiteSpace ch)"
proof
  assume "trim s = []"
  then have "dropWhile isWhiteSpace (rev (dropWhile isWhiteSpace s)) = []"
    by (simp add: trim_def)
  then have a: "\<forall>ch\<in>set (dropWhile isWhiteSpace s). isWhiteSpace ch"
    by (simp add: dropWhile_eq_Nil_conv)
  have "dropWhile isWhiteSpace s = []"
  proof (cases "dropWhile isWhiteSpace s")
    case Nil
    then show ?thesis .
  next
    case (Cons x xs)
    then have "\<not> isWhiteSpace x" using hd_dropWhile [of isWhiteSpace s] by simp
    moreover have "isWhiteSpace x" using a Cons by simp
    ultimately show ?thesis by simp
  qed
  then show "\<forall>ch\<in>set s. isWhiteSpace ch" by (simp add: dropWhile_eq_Nil_conv)
next
  assume "\<forall>ch\<in>set s. isWhiteSpace ch"
  then show "trim s = []" by (simp add: trim_def dropWhile_all)
qed

lemma decimal_digit: "n < 10 \<Longrightarrow> decimal n = [digitChar n]"
  by (simp add: decimal.simps)

lemma decimal_more: "10 \<le> n \<Longrightarrow> decimal n = decimal (n div 10) @ [digitChar (n mod 10)]"
  by (subst decimal.simps) simp

lemma floor_rat_numeral: "\<lfloor>(numeral a :: rat) / numeral b\<rfloor> = numeral a div numeral b"
  using floor_divide_of_int_eq [of "numeral a" "numeral b", where ?'a = rat] by simp

lemma replicate_numeral: "replicate (numeral k) x = x # replicate (pred_numeral k) x"
  by (simp add: numeral_eq_Suc)

lemmas tofixed_eval = toFixed_def Let_def decimal_digit decimal_more digitChar_def
  floor_rat_numeral replicate_numeral

lemma scenario_text: "coordText scenarioClick = ''35.7000, -0.6300''"
  by (simp add: coordText_def scenarioClick_def tofixed_eval)

lemma decimal_text: "coordText \<lparr>lng = - 63 / 100, lat = 357 / 10\<rparr> = ''35.7000, -0.6300''"
  by (simp add: coordText_def tofixed_eval)

lemmas world_eval = setView_def onMap_def markerRemove_def nextRef_def exec_def
  layersOnMap_def sourcesOnMap_def callsOf_def markersOnMap_def greenMarkers_def

lemma display_layersOnMap:
  assumes "mapCurrent w = Some e" and "owned e"
  shows "layersOnMap (displayRoutesOnMap c rs w) = map layerOf (drawn 0 rs)"
  using display_routeLayers [OF assms, of c rs]
  by (cases "mapCurrent (displayRoutesOnMap c rs w)") (simp_all add: layersOnMap_def)

lemma display_sourcesOnMap:
  assumes "mapCurrent w = Some e" and "owned e"
  shows "sourcesOnMap (displayRoutesOnMap c rs w) = map sourceOf (drawn 0 rs)"
  using display_routeSources [OF assms, of c rs]
  by (cases "mapCurrent (displayRoutesOnMap c rs w)") (simp_all add: sourcesOnMap_def)

lemma trim_letter: "trim ''A'' = ''A''" "trim ''B'' = ''B''"
  by (simp_all add: trim_def isWhiteSpace_def)

lemma setView_fields [simp]:
  "mapCurrent (setView f w) = mapCurrent w"
  "requests (setView f w) = requests w"
  "console (setView f w) = console w"
  "view (setView f w) = f (view w)"
  "layersOnMap (setView f w) = layersOnMap w"
  "sourcesOnMap (setView f w) = sourcesOnMap w"
  "markersOnMap (setView f w) = markersOnMap w"
  by (simp_all add: setView_def layersOnMap_def sourcesOnMap_def markersOnMap_def)

lemma clear_layersOnMap: "layersOnMap (clearRouteLayersFromMap c w) = []"
proof (cases "mapCurrent w")
  case None
  then show ?thesis by (simp add: clearRouteLayersFromMap_def layersOnMap_def)
next
  case (Some e)
  have "filter (\<lambda>l. startsWith (layerId l) ''route-layer-'')
          (filter (\<lambda>k. \<not> startsWith (layerId k) ''route-layer-'') (layers e)) = []"
    by (rule filter_none) simp
  then show ?thesis
    by (simp add: clear_world [OF Some] layersOnMap_def routeLayers_def clear_layers)
qed

lemma clear_sourcesOnMap:
  assumes "mapCurrent w = Some e" and "owned e"
  shows "sourcesOnMap (clearRouteLayersFromMap c w) = []"
proof -
  have "filter (\<lambda>s. startsWith (fst s) ''route-'')
          (filter (\<lambda>s. \<not> startsWith (fst s) ''route-'') (sources e)) = []"
    by (rule filter_none) simp
  then show ?thesis
    by (simp add: clear_world [OF assms(1)] sourcesOnMap_def routeSources_def
        clear_sources [OF assms(2)])
qed

lemma clear_markersOnMap: "markersOnMap (clearRouteLayersFromMap c w) = markersOnMap w"
  by (cases "mapCurrent w")
     (simp_all add: clearRouteLayersFromMap_def markersOnMap_def clear_other setView_def)

lemma clear_view:
  "mapCurrent w = Some e \<Longrightarrow>
     view (clearRouteLayersFromMap c w) = (view w)\<lparr>activeRouteHandlers := []\<rparr>"
  by (simp add: clear_world)

lemma escapeKey_eq:
  "escapeKey w =
     setView (\<lambda>v. v\<lparr>clickMode := CM_none\<rparr>)
       (setView (\<lambda>v. v\<lparr>routeResults := []\<rparr>)
         (clearRouteLayersFromMap initialView
           (setView (\<lambda>v. v\<lparr>showRoutePanel := False\<rparr>)
             (setView (\<lambda>v. v\<lparr>showInfoPanel := False\<rparr>) w))))"
  by (simp add: escapeKey_def handleKeyDown_def Let_def)

lemma fit_fields [simp]:
  "layersOnMap (fitRouteBounds b w) = layersOnMap w"
  "sourcesOnMap (fitRouteBounds b w) = sourcesOnMap w"
  "view (fitRouteBounds b w) = view w"
  "requests (fitRouteBounds b w) = requests w"
  by (cases "mapCurrent w";
      simp add: fitRouteBounds_def onMap_def exec_def layersOnMap_def sourcesOnMap_def
        routeLayers_def routeSources_def)+

lemma trim_nonempty: "trim s \<noteq> [] \<Longrightarrow> length s \<ge> 1"
  by (cases s) (simp_all add: trim_def)

lemma search_success:
  assumes "trim (startLocation c) \<noteq> []" and "trim (endLocation c) \<noteq> []"
    and "serve \<lparr>reqStart = startLocation c, reqEnd = endLocation c, reqMode = ''transit''\<rparr>
           = Response True (Some (r0 # rs))"
    and "bounds r0 = Some b"
  shows "searchBusRoutes c serve w =
     setView (\<lambda>v. v\<lparr>isLoadingRoute := False\<rparr>)
       (fitRouteBounds b
         (displayRoutesOnMap c (r0 # rs)
           (setView (\<lambda>v. v\<lparr>routeResults := r0 # rs\<rparr>)
             ((setView (\<lambda>v. v\<lparr>routeResults := []\<rparr>)
                (setView (\<lambda>v. v\<lparr>isLoadingRoute := True\<rparr>) w))
              \<lparr>requests := requests w
                 @ [\<lparr>reqStart = startLocation c, reqEnd = endLocation c, reqMode = ''transit''\<rparr>]\<rparr>))))"
  using assms by (simp add: searchBusRoutes_def Let_def)

lemma mock_no_geometry: "drawn 0 (mockRoutes req) = []"
  by (simp add: drawn_def mockRoutes_def hasGeometry_def)

lemma mock_shape:
  "\<exists>r0 r1. mockRoutes req = [r0, r1] \<and> bounds r0 = Some mockBounds
      \<and> geometry r0 = None \<and> geometry r1 = None"
  by (simp add: mockRoutes_def)

section \<open>The claims\<close>

text \<open>
  C1. For every sequence of changes of \<open>clickMode\<close> (and of other re-renders), with or
  without a map, at most one picking click handler is bound to the map's \<open>click\<close> event
  after every single engine call of the trace (the logging listener bound at mount is not
  a picking handler). On a direct switch from \<open>'start'\<close> to \<open>'end'\<close> the calls are: unbind
  the old closure, set the cursor, unbind the new closure, bind the new closure.
\<close>

theorem picking_handler_at_most_one:
  "length (pickingBound (run (take n (pickingCalls live evs)) (newMap ls ss))) \<le> 1
   \<and> snd (uiStep True (SetClickMode CM_end) (s\<lparr>depMode := CM_start\<rparr>)) =
       [OffClick (LocationClick (effRender s)), SetCursor ''crosshair'',
        OffClick (LocationClick (Suc (renders s))), OnClick (LocationClick (Suc (renders s)))]"
proof -
  have "safe (pickingCalls live evs) (newMap ls ss)"
    using mount_safe [of live ls ss] uiCalls_safe [of live _ mountState evs]
    by (simp add: pickingCalls_def safe_append)
  then have a: "length (pickingBound (run (take n (pickingCalls live evs)) (newMap ls ss))) \<le> 1"
    by (rule safe_take)
  have b: "snd (uiStep True (SetClickMode CM_end) (s\<lparr>depMode := CM_start\<rparr>)) =
       [OffClick (LocationClick (effRender s)), SetCursor ''crosshair'',
        OffClick (LocationClick (Suc (renders s))), OnClick (LocationClick (Suc (renders s)))]"
    by (simp add: clickModeCleanup_def clickModeEffect_def picking_def)
  show ?thesis using a b by blast
qed

theorem picking_handler_at_most_one_witness:
  "length (pickingBound (run (take 6
      (pickingCalls True [SetClickMode CM_start, OtherUpdate, SetClickMode CM_end]))
      (newMap [] []))) \<le> 1
   \<and> snd (uiStep True (SetClickMode CM_end) (mountState\<lparr>depMode := CM_start\<rparr>)) =
       [OffClick (LocationClick 0), SetCursor ''crosshair'',
        OffClick (LocationClick 1), OnClick (LocationClick 1)]"
  using picking_handler_at_most_one
    [of 6 True "[SetClickMode CM_start, OtherUpdate, SetClickMode CM_end]" "[]" "[]" mountState]
  by (simp add: mountState_def)

text \<open>
  C2 (amended). With a live map whose style is owned, \<open>displayRoutesOnMap R1\<close> followed, in
  the next render, by \<open>displayRoutesOnMap R2\<close> leaves exactly one route layer and one route
  source for each route of \<open>R2\<close> that carries a geometry with coordinates (named after its
  index in \<open>R2\<close>, holding its data), and none of \<open>R1\<close>. The calls of the second drawing are,
  in this order: the listeners of the layers of \<open>R1\<close> off, the layers of \<open>R1\<close> removed,
  the sources of \<open>R1\<close> removed, then the additions for \<open>R2\<close>.
\<close>

theorem display_replaces_routes:
  assumes "mapCurrent w = Some e" and "owned e"
  shows "layersOnMap (displayRoutesOnMap (view (displayRoutesOnMap (view w) R1 w)) R2
            (displayRoutesOnMap (view w) R1 w)) = map layerOf (drawn 0 R2)
    \<and> sourcesOnMap (displayRoutesOnMap (view (displayRoutesOnMap (view w) R1 w)) R2
            (displayRoutesOnMap (view w) R1 w)) = map sourceOf (drawn 0 R2)
    \<and> callsOf (displayRoutesOnMap (view (displayRoutesOnMap (view w) R1 w)) R2
            (displayRoutesOnMap (view w) R1 w)) =
        callsOf (displayRoutesOnMap (view w) R1 w)
        @ concat (map (\<lambda>ir. offs (layerId (layerOf ir))) (drawn 0 R1))
        @ map (\<lambda>ir. RemoveLayer (layerId (layerOf ir))) (drawn 0 R1)
        @ map (\<lambda>ir. RemoveSource (fst (sourceOf ir))) (drawn 0 R1)
        @ concat (map addCalls (drawn 0 R2))"
proof -
  let ?w1 = "displayRoutesOnMap (view w) R1 w"
  let ?w2 = "displayRoutesOnMap (view ?w1) R2 ?w1"
  obtain e1 where e1: "mapCurrent ?w1 = Some e1" "owned e1"
    using display_owned [OF assms] by blast
  have l1: "routeLayers e1 = map layerOf (drawn 0 R1)"
    using display_routeLayers [OF assms, of "view w" R1] e1 by simp
  have s1: "routeSources e1 = map sourceOf (drawn 0 R1)"
    using display_routeSources [OF assms, of "view w" R1] e1 by simp
  have h1: "activeRouteHandlers (view ?w1) = map (\<lambda>ir. layerId (layerOf ir)) (drawn 0 R1)"
    by (rule display_handlers [OF assms])
  have d1: "distinct (map layerId (routeLayers e1))"
    using distinct_layer_ids [of 0 R1] by (simp add: l1 comp_def)
  have d2: "distinct (map fst (routeSources e1))"
    using distinct_source_ids [of 0 R1] by (simp add: s1 comp_def)
  have present: "filter (\<lambda>h. getLayer h e1) (map (\<lambda>ir. layerId (layerOf ir)) (drawn 0 R1))
                  = map (\<lambda>ir. layerId (layerOf ir)) (drawn 0 R1)"
  proof (rule filter_all)
    fix x assume "x \<in> set (map (\<lambda>ir. layerId (layerOf ir)) (drawn 0 R1))"
    then have "x \<in> set (map layerId (routeLayers e1))" by (simp add: l1 comp_def)
    then show "getLayer x e1" by (auto simp add: getLayer_def routeLayers_def)
  qed
  have c2: "callsOf ?w2 = calls (clearRoutesEngine (activeRouteHandlers (view ?w1)) e1)
              @ concat (map addCalls (drawn 0 R2))"
    using display_calls [OF e1, of "view ?w1" R2]
    by (auto simp add: callsOf_def split: option.splits)
  have c1: "callsOf ?w1 = calls e1" using e1 by (simp add: callsOf_def)
  have "callsOf ?w2 = callsOf ?w1
        @ concat (map (\<lambda>ir. offs (layerId (layerOf ir))) (drawn 0 R1))
        @ map (\<lambda>ir. RemoveLayer (layerId (layerOf ir))) (drawn 0 R1)
        @ map (\<lambda>ir. RemoveSource (fst (sourceOf ir))) (drawn 0 R1)
        @ concat (map addCalls (drawn 0 R2))"
    unfolding c2 c1 clear_calls [OF d1 d2] h1 present l1 s1
    by (simp add: comp_def)
  moreover have "layersOnMap ?w2 = map layerOf (drawn 0 R2)"
    using display_routeLayers [OF e1, of "view ?w1" R2]
    by (auto simp add: layersOnMap_def split: option.splits)
  moreover have "sourcesOnMap ?w2 = map sourceOf (drawn 0 R2)"
    using display_routeSources [OF e1, of "view ?w1" R2]
    by (auto simp add: sourcesOnMap_def split: option.splits)
  ultimately show ?thesis by blast
qed

theorem display_replaces_routes_witness:
  "mapCurrent mountedWorld = Some (newMap [] []) \<and> owned (newMap [] [])
   \<and> drawn 0 [lineRoute] = [(0, lineRoute)]
   \<and> drawn 0 [plainRoute, lineRoute] = [(1, lineRoute)]
   \<and> layersOnMap (displayRoutesOnMap
          (view (displayRoutesOnMap (view mountedWorld) [lineRoute] mountedWorld))
          [plainRoute, lineRoute]
          (displayRoutesOnMap (view mountedWorld) [lineRoute] mountedWorld))
       = map layerOf (drawn 0 [plainRoute, lineRoute])
   \<and> sourcesOnMap (displayRoutesOnMap
          (view (displayRoutesOnMap (view mountedWorld) [lineRoute] mountedWorld))
          [plainRoute, lineRoute]
          (displayRoutesOnMap (view mountedWorld) [lineRoute] mountedWorld))
       = map sourceOf (drawn 0 [plainRoute, lineRoute])"
proof -
  have a: "mapCurrent mountedWorld = Some (newMap [] [])" by (simp add: mountedWorld_def)
  have b: "owned (newMap [] [])" by (simp add: owned_def newMap_def)
  have c: "drawn 0 [lineRoute] = [(0, lineRoute)]"
    by (simp add: drawn_def hasGeometry_def lineRoute_def)
  have d: "drawn 0 [plainRoute, lineRoute] = [(1, lineRoute)]"
    by (simp add: drawn_def hasGeometry_def lineRoute_def plainRoute_def)
  show ?thesis
    using a b c d display_replaces_routes [OF a b, of "[lineRoute]" "[plainRoute, lineRoute]"]
    by blast
qed

theorem display_skips_routes_without_geometry:
  "length (layersOnMap (displayRoutesOnMap
      (view (displayRoutesOnMap (view mountedWorld) [lineRoute] mountedWorld)) [plainRoute]
      (displayRoutesOnMap (view mountedWorld) [lineRoute] mountedWorld))) \<noteq> length [plainRoute]"
proof -
  have a: "mapCurrent mountedWorld = Some (newMap [] [])" by (simp add: mountedWorld_def)
  have b: "owned (newMap [] [])" by (simp add: owned_def newMap_def)
  obtain e1 where e1: "mapCurrent (displayRoutesOnMap (view mountedWorld) [lineRoute] mountedWorld) = Some e1"
    "owned e1"
    using display_owned [OF a b] by blast
  have "drawn 0 [plainRoute] = []" by (simp add: drawn_def hasGeometry_def plainRoute_def)
  then have "layersOnMap (displayRoutesOnMap
      (view (displayRoutesOnMap (view mountedWorld) [lineRoute] mountedWorld)) [plainRoute]
      (displayRoutesOnMap (view mountedWorld) [lineRoute] mountedWorld)) = []"
    by (simp add: display_layersOnMap [OF e1])
  then show ?thesis by simp
qed

text \<open>
  C3. If the start text or the end text is empty or holds white space only,
  \<open>searchBusRoutes\<close> stops at its guard: the only effect is the warning on the console, no
  request is sent and the state is as before.
\<close>

theorem search_blank_endpoint_no_request:
  assumes "(\<forall>ch\<in>set (startLocation c). isWhiteSpace ch) \<or> (\<forall>ch\<in>set (endLocation c). isWhiteSpace ch)"
  shows "searchBusRoutes c serve w =
           w\<lparr>console := console w @ [''Please enter both start and end locations'']\<rparr>
         \<and> requests (searchBusRoutes c serve w) = requests w"
  using assms by (auto simp add: searchBusRoutes_def trim_empty_iff)

theorem search_blank_endpoint_no_request_witness:
  "requests (searchBusRoutes (initialView\<lparr>startLocation := ''A'', endLocation := '' ''\<rparr>)
      backend mountedWorld) = []
   \<and> console (searchBusRoutes (initialView\<lparr>startLocation := ''A'', endLocation := '' ''\<rparr>)
      backend mountedWorld) = [''Please enter both start and end locations'']"
  using search_blank_endpoint_no_request
    [of "initialView\<lparr>startLocation := ''A'', endLocation := '' ''\<rparr>" backend mountedWorld]
  by (simp add: isWhiteSpace_def mountedWorld_def)

text \<open>
  C4 (amended). When the two texts are not blank and the request fails, or the response is
  not ok, or its body does not parse, or it is the empty list, \<open>searchBusRoutes\<close> ends with
  the loading flag cleared and the map (its route overlays with it) exactly as before;
  the stored route results are empty, as they are emptied when the search starts.
\<close>

theorem search_failure_keeps_overlays:
  assumes "trim (startLocation c) \<noteq> []" and "trim (endLocation c) \<noteq> []"
    and "serve \<lparr>reqStart = startLocation c, reqEnd = endLocation c, reqMode = ''transit''\<rparr>
          \<in> {NetworkFailure, Response False body, Response True None, Response True (Some [])}"
  shows "isLoadingRoute (view (searchBusRoutes c serve w)) = False
         \<and> mapCurrent (searchBusRoutes c serve w) = mapCurrent w
         \<and> activeRouteHandlers (view (searchBusRoutes c serve w)) = activeRouteHandlers (view w)
         \<and> routeResults (view (searchBusRoutes c serve w)) = []"
  using assms by (auto simp add: searchBusRoutes_def Let_def setView_def)

theorem search_failure_keeps_overlays_witness:
  "isLoadingRoute (view (searchBusRoutes (view resultsWorld) (\<lambda>req. NetworkFailure) resultsWorld)) = False
   \<and> mapCurrent (searchBusRoutes (view resultsWorld) (\<lambda>req. NetworkFailure) resultsWorld)
       = mapCurrent resultsWorld
   \<and> routeResults (view (searchBusRoutes (view resultsWorld) (\<lambda>req. NetworkFailure) resultsWorld)) = []"
  using search_failure_keeps_overlays
    [of "view resultsWorld" "\<lambda>req. NetworkFailure" None resultsWorld]
  by (simp add: resultsWorld_def mountedWorld_def trim_letter)

theorem search_failure_empties_results:
  "routeResults (view (searchBusRoutes (view resultsWorld) (\<lambda>req. NetworkFailure) resultsWorld))
     \<noteq> routeResults (view resultsWorld)"
  by (simp add: searchBusRoutes_def Let_def setView_def resultsWorld_def mountedWorld_def trim_letter)

text \<open>
  C5. With \<open>clickMode\<close> \<open>'start'\<close> and a live map, the click of scenario C (lng -0.63,
  lat 35.70) stores these coordinates as the start, sets the start text to
  \<open>35.7000, -0.6300\<close>, takes the start marker of the render off the map and puts one green
  marker at the clicked point, which becomes the start marker, and sets \<open>clickMode\<close> to
  \<open>'none'\<close>. If no other green marker was on the map, exactly one is there afterwards.
\<close>

theorem picking_start_click:
  assumes "clickMode c = CM_start" and "mapCurrent w = Some e"
    and "\<forall>m\<in>set (markers e). markerColor (snd m) = ''#10b981'' \<longrightarrow> startMarker c = Some (fst m)"
  shows "startCoords (view (handleLocationClick c scenarioClick w)) = Some scenarioClick
    \<and> startLocation (view (handleLocationClick c scenarioClick w)) = ''35.7000, -0.6300''
    \<and> clickMode (view (handleLocationClick c scenarioClick w)) = CM_none
    \<and> startMarker (view (handleLocationClick c scenarioClick w)) = Some (nextMarker e)
    \<and> markersOnMap (handleLocationClick c scenarioClick w) =
         filter (\<lambda>m. startMarker c \<noteq> Some (fst m)) (markers e)
         @ [(nextMarker e, \<lparr>markerColor = ''#10b981'',
               markerLngLat = (lng scenarioClick, lat scenarioClick),
               markerPopup = startPopup scenarioClick\<rparr>)]
    \<and> length (greenMarkers (handleLocationClick c scenarioClick w)) = 1"
proof -
  let ?w = "handleLocationClick c scenarioClick w"
  have v: "view ?w = (view w)\<lparr>startCoords := Some scenarioClick,
              startLocation := ''35.7000, -0.6300'', startMarker := Some (nextMarker e),
              clickMode := CM_none\<rparr>"
    using assms(1,2)
    by (cases "startMarker c")
       (simp_all add: handleLocationClick_def addStartMarker_def Let_def world_eval scenario_text)
  have m: "markersOnMap ?w =
         filter (\<lambda>m. startMarker c \<noteq> Some (fst m)) (markers e)
         @ [(nextMarker e, \<lparr>markerColor = ''#10b981'',
               markerLngLat = (lng scenarioClick, lat scenarioClick),
               markerPopup = startPopup scenarioClick\<rparr>)]"
    using assms(1,2)
    by (cases "startMarker c")
       (auto simp add: handleLocationClick_def addStartMarker_def Let_def world_eval
          intro!: filter_cong)
  have "filter (\<lambda>m. markerColor (snd m) = ''#10b981'')
          (filter (\<lambda>m. startMarker c \<noteq> Some (fst m)) (markers e)) = []"
    using assms(3) by (intro filter_none) auto
  then have g: "length (greenMarkers ?w) = 1"
    by (simp add: greenMarkers_def m)
  show ?thesis using g m by (simp add: v)
qed

theorem picking_start_click_witness:
  "startCoords (view (handleLocationClick (initialView\<lparr>clickMode := CM_start\<rparr>)
       scenarioClick mountedWorld)) = Some scenarioClick
   \<and> startLocation (view (handleLocationClick (initialView\<lparr>clickMode := CM_start\<rparr>)
       scenarioClick mountedWorld)) = ''35.7000, -0.6300''
   \<and> clickMode (view (handleLocationClick (initialView\<lparr>clickMode := CM_start\<rparr>)
       scenarioClick mountedWorld)) = CM_none
   \<and> length (greenMarkers (handleLocationClick (initialView\<lparr>clickMode := CM_start\<rparr>)
       scenarioClick mountedWorld)) = 1"
  using picking_start_click
    [of "initialView\<lparr>clickMode := CM_start\<rparr>" mountedWorld "newMap [] []"]
  by (simp add: mountedWorld_def newMap_def)

text \<open>
  C6. The button of an endpoint sets \<open>clickMode\<close> back to \<open>'none'\<close> when the render it
  belongs to is already picking that endpoint.
\<close>

theorem picking_button_toggles_back:
  "(clickMode c = CM_start \<longrightarrow> clickMode (view (startButtonClick c w)) = CM_none)
   \<and> (clickMode c = CM_end \<longrightarrow> clickMode (view (endButtonClick c w)) = CM_none)"
  by (simp add: startButtonClick_def endButtonClick_def setView_def)

theorem picking_button_toggles_back_witness:
  "clickMode (view (startButtonClick (initialView\<lparr>clickMode := CM_start\<rparr>)
      (mountedWorld\<lparr>view := initialView\<lparr>clickMode := CM_start\<rparr>\<rparr>))) = CM_none
   \<and> clickMode (view (endButtonClick (initialView\<lparr>clickMode := CM_end\<rparr>)
      (mountedWorld\<lparr>view := initialView\<lparr>clickMode := CM_end\<rparr>\<rparr>))) = CM_none"
  using picking_button_toggles_back
    [of "initialView\<lparr>clickMode := CM_start\<rparr>"
        "mountedWorld\<lparr>view := initialView\<lparr>clickMode := CM_start\<rparr>\<rparr>"]
    picking_button_toggles_back
    [of "initialView\<lparr>clickMode := CM_end\<rparr>"
        "mountedWorld\<lparr>view := initialView\<lparr>clickMode := CM_end\<rparr>\<rparr>"]
  by simp

text \<open>
  C7 (amended). The Escape key closes the info panel and the route panel, removes every
  route layer and route source from the map (its style being owned), empties the stored
  results and sets \<open>clickMode\<close> to \<open>'none'\<close>. The endpoint texts, coordinates and markers stay
  as they are.
\<close>

theorem escape_clears_routes_and_mode:
  assumes "mapCurrent w = Some e" and "owned e"
  shows "showInfoPanel (view (escapeKey w)) = False
    \<and> showRoutePanel (view (escapeKey w)) = False
    \<and> routeResults (view (escapeKey w)) = []
    \<and> clickMode (view (escapeKey w)) = CM_none
    \<and> layersOnMap (escapeKey w) = []
    \<and> sourcesOnMap (escapeKey w) = []
    \<and> markersOnMap (escapeKey w) = markersOnMap w
    \<and> startLocation (view (escapeKey w)) = startLocation (view w)
    \<and> endLocation (view (escapeKey w)) = endLocation (view w)
    \<and> startCoords (view (escapeKey w)) = startCoords (view w)
    \<and> endCoords (view (escapeKey w)) = endCoords (view w)
    \<and> startMarker (view (escapeKey w)) = startMarker (view w)
    \<and> endMarker (view (escapeKey w)) = endMarker (view w)"
proof -
  let ?b = "setView (\<lambda>v. v\<lparr>showRoutePanel := False\<rparr>)
             (setView (\<lambda>v. v\<lparr>showInfoPanel := False\<rparr>) w)"
  have m: "mapCurrent ?b = Some e" using assms(1) by simp
  have "sourcesOnMap (escapeKey w) = []"
    by (simp add: escapeKey_eq clear_sourcesOnMap [OF m assms(2)])
  moreover have "layersOnMap (escapeKey w) = []"
    by (simp add: escapeKey_eq clear_layersOnMap)
  moreover have "markersOnMap (escapeKey w) = markersOnMap w"
    by (simp add: escapeKey_eq clear_markersOnMap)
  moreover have "view (escapeKey w) =
     (view w)\<lparr>showInfoPanel := False, showRoutePanel := False, activeRouteHandlers := [],
              routeResults := [], clickMode := CM_none\<rparr>"
    by (simp add: escapeKey_eq clear_view [OF m])
  ultimately show ?thesis by simp
qed

theorem escape_clears_routes_and_mode_witness:
  "layersOnMap routedWorld \<noteq> [] \<and> sourcesOnMap routedWorld \<noteq> []
   \<and> clickMode (view routedWorld) = CM_end
   \<and> layersOnMap (escapeKey routedWorld) = []
   \<and> sourcesOnMap (escapeKey routedWorld) = []
   \<and> routeResults (view (escapeKey routedWorld)) = []
   \<and> clickMode (view (escapeKey routedWorld)) = CM_none
   \<and> showRoutePanel (view (escapeKey routedWorld)) = False"
proof -
  have a: "mapCurrent routedWorld = Some (newMap [layerOf (0, lineRoute)] [sourceOf (0, lineRoute)])"
    by (simp add: routedWorld_def)
  have b: "owned (newMap [layerOf (0, lineRoute)] [sourceOf (0, lineRoute)])"
    by (simp add: owned_def newMap_def startsWith_def)
  have c: "layersOnMap routedWorld \<noteq> []" "sourcesOnMap routedWorld \<noteq> []"
    "clickMode (view routedWorld) = CM_end"
    by (simp_all add: routedWorld_def layersOnMap_def sourcesOnMap_def routeLayers_def
        routeSources_def newMap_def startsWith_def)
  show ?thesis using c escape_clears_routes_and_mode [OF a b] by simp
qed

theorem escape_keeps_endpoints:
  "startLocation (view (escapeKey pickedWorld)) = ''35.7000, -0.6300''
   \<and> startCoords (view (escapeKey pickedWorld)) = Some scenarioClick
   \<and> startMarker (view (escapeKey pickedWorld)) = Some 0
   \<and> length (markersOnMap (escapeKey pickedWorld)) = 1"
proof -
  have m: "mapCurrent pickedWorld \<noteq> None"
    by (simp add: pickedWorld_def handleLocationClick_def addStartMarker_def Let_def
        world_eval mountedWorld_def newMap_def initialView_def)
  then obtain e where e: "mapCurrent pickedWorld = Some e" by blast
  have v: "view (escapeKey pickedWorld) =
     (view pickedWorld)\<lparr>showInfoPanel := False, showRoutePanel := False,
        activeRouteHandlers := [], routeResults := [], clickMode := CM_none\<rparr>"
    using e by (simp add: escapeKey_eq clear_view)
  have k: "markersOnMap (escapeKey pickedWorld) = markersOnMap pickedWorld"
    by (simp add: escapeKey_eq clear_markersOnMap)
  have p: "startLocation (view pickedWorld) = ''35.7000, -0.6300''"
    "startCoords (view pickedWorld) = Some scenarioClick"
    "startMarker (view pickedWorld) = Some 0"
    "length (markersOnMap pickedWorld) = 1"
    by (simp_all add: pickedWorld_def handleLocationClick_def addStartMarker_def Let_def
        world_eval mountedWorld_def newMap_def initialView_def scenario_text)
  show ?thesis by (simp add: v k p)
qed

text \<open>
  C8 (amended). A marker-create request whose latitude or longitude is missing or is not a
  number is answered with 400 and the table is left as it was. No geographic range is
  checked: with a string title, a description and a colour that are absent, null or a
  string (the colour of at most 7 characters), every latitude and longitude between
  \<open>-8388608\<close> and \<open>8388607\<close> passes the schema under either version of the library and the
  data goes to the insert with these two numbers: the answer is never 400, it is 201 with
  the row appended (the numbers in single precision), or 500 with the table unchanged
  when the insert fails.
\<close>

theorem marker_numbers_checked_not_ranges:
  "(\<not> isNumber (bodyLatitude body) \<or> \<not> isNumber (bodyLongitude body) \<longrightarrow>
      status (fst (postMarkers env body db)) = 400 \<and> snd (postMarkers env body db) = db)
   \<and> (bodyTitle body = Some (JStr t) \<and> optionalText None (bodyDescription body)
      \<and> optionalText (Some 7) (bodyColor body)
      \<and> bodyLatitude body = Some (JNum la) \<and> bodyLongitude body = Some (JNum lo)
      \<and> int24 la \<and> int24 lo \<longrightarrow>
      insertMarkerSchema (envRealColumn env) body = Inr (dataOf body)
      \<and> insLatitude (dataOf body) = la \<and> insLongitude (dataOf body) = lo
      \<and> status (fst (postMarkers env body db)) \<noteq> 400
      \<and> (envRefuses env (dataOf body) \<longrightarrow>
            status (fst (postMarkers env body db)) = 500 \<and> snd (postMarkers env body db) = db)
      \<and> (\<not> envRefuses env (dataOf body) \<longrightarrow>
            status (fst (postMarkers env body db)) = 201
            \<and> map latitude (snd (postMarkers env body db)) = map latitude db @ [envReal4 env la]
            \<and> map longitude (snd (postMarkers env body db)) = map longitude db @ [envReal4 env lo]))"
proof (intro conjI impI)
  assume a: "\<not> isNumber (bodyLatitude body) \<or> \<not> isNumber (bodyLongitude body)"
  have "numberIssue (envRealColumn env) ''latitude'' (bodyLatitude body) \<noteq> []
        \<or> numberIssue (envRealColumn env) ''longitude'' (bodyLongitude body) \<noteq> []"
    using a
    by (auto simp add: isNumber_def numberIssue_def split: option.splits json.splits)
  then obtain issues where i: "insertMarkerSchema (envRealColumn env) body = Inl issues"
    by (auto simp add: insertMarkerSchema_def Let_def)
  show "status (fst (postMarkers env body db)) = 400"
    by (simp add: postMarkers_def status_def i)
  show "snd (postMarkers env body db) = db"
    by (simp add: postMarkers_def i)
next
  assume b: "bodyTitle body = Some (JStr t) \<and> optionalText None (bodyDescription body)
      \<and> optionalText (Some 7) (bodyColor body)
      \<and> bodyLatitude body = Some (JNum la) \<and> bodyLongitude body = Some (JNum lo)
      \<and> int24 la \<and> int24 lo"
  have chk: "realColumnCheck (envRealColumn env) la" "realColumnCheck (envRealColumn env) lo"
    using b by (cases "envRealColumn env"; simp)+
  have d: "optStringIssue ''description'' None (bodyDescription body) = []"
    using b by (auto simp add: optionalText_def optStringIssue_def split: option.splits json.splits)
  have c: "optStringIssue ''color'' (Some 7) (bodyColor body) = []"
    using b by (auto simp add: optionalText_def optStringIssue_def split: option.splits json.splits)
  show p: "insertMarkerSchema (envRealColumn env) body = Inr (dataOf body)"
    using b chk by (simp add: insertMarkerSchema_def stringIssue_def numberIssue_def d c)
  show la: "insLatitude (dataOf body) = la" using b by (simp add: dataOf_def jsonNumber_def)
  show lo: "insLongitude (dataOf body) = lo" using b by (simp add: dataOf_def jsonNumber_def)
  show "status (fst (postMarkers env body db)) \<noteq> 400"
    by (simp add: postMarkers_def p createMarker_def status_def Let_def)
  {
    assume r: "envRefuses env (dataOf body)"
    show "status (fst (postMarkers env body db)) = 500"
      by (simp add: postMarkers_def p createMarker_def status_def r)
    show "snd (postMarkers env body db) = db"
      by (simp add: postMarkers_def p createMarker_def r)
  }
  {
    assume r: "\<not> envRefuses env (dataOf body)"
    show "status (fst (postMarkers env body db)) = 201"
      by (simp add: postMarkers_def p createMarker_def status_def Let_def r)
    show "map latitude (snd (postMarkers env body db)) = map latitude db @ [envReal4 env la]"
      by (simp add: postMarkers_def p createMarker_def Let_def r la)
    show "map longitude (snd (postMarkers env body db)) = map longitude db @ [envReal4 env lo]"
      by (simp add: postMarkers_def p createMarker_def Let_def r lo)
  }
qed

theorem marker_numbers_checked_not_ranges_witness:
  "status (fst (postMarkers boundedEnv (nearOranBody\<lparr>bodyLatitude := Some (JStr ''north'')\<rparr>) [])) = 400
   \<and> snd (postMarkers boundedEnv (nearOranBody\<lparr>bodyLatitude := Some (JStr ''north'')\<rparr>) []) = []
   \<and> status (fst (postMarkers boundedEnv nearOranBody [])) = 201
   \<and> map latitude (snd (postMarkers boundedEnv nearOranBody [])) = [91]
   \<and> map longitude (snd (postMarkers boundedEnv nearOranBody [])) = [- 181]
   \<and> status (fst (postMarkers (boundedEnv\<lparr>envRefuses := (\<lambda>ins. True)\<rparr>) nearOranBody [])) = 500
   \<and> snd (postMarkers (boundedEnv\<lparr>envRefuses := (\<lambda>ins. True)\<rparr>) nearOranBody []) = []"
  using marker_numbers_checked_not_ranges
    [where body = "nearOranBody\<lparr>bodyLatitude := Some (JStr ''north'')\<rparr>"
       and env = boundedEnv and db = "[]"]
    marker_numbers_checked_not_ranges
    [where body = nearOranBody and t = "''Oran''" and la = 91 and lo = "- 181"
       and env = boundedEnv and db = "[]"]
    marker_numbers_checked_not_ranges
    [where body = nearOranBody and t = "''Oran''" and la = 91 and lo = "- 181"
       and env = "boundedEnv\<lparr>envRefuses := (\<lambda>ins. True)\<rparr>" and db = "[]"]
  by (simp add: isNumber_def nearOranBody_def int24_def optionalText_def boundedEnv_def
      plainEnv_def)

theorem marker_out_of_range_stored:
  "status (fst (postMarkers plainEnv farNorthBody [])) = 201
   \<and> map latitude (snd (postMarkers plainEnv farNorthBody [])) = [100]
   \<and> map longitude (snd (postMarkers plainEnv farNorthBody [])) = [200]
   \<and> status (fst (postMarkers boundedEnv farNorthBody [])) = 201
   \<and> map latitude (snd (postMarkers boundedEnv farNorthBody [])) = [100]
   \<and> map longitude (snd (postMarkers boundedEnv farNorthBody [])) = [200]"
  by (simp add: postMarkers_def insertMarkerSchema_def stringIssue_def optStringIssue_def
      numberIssue_def farNorthBody_def int24_def createMarker_def status_def Let_def
      dataOf_def jsonString_def jsonNumber_def toOptString_def columnValue_def
      plainEnv_def boundedEnv_def)

text \<open>
  C9. \<open>clearLocationMarkers\<close> is idempotent: run from a render and again from the render
  that follows, the second run changes nothing (markers on the map, coordinates, texts and
  the rest of the state alike).
\<close>

theorem clearLocationMarkers_idempotent:
  "clearLocationMarkers (view (clearLocationMarkers (view w) w)) (clearLocationMarkers (view w) w)
     = clearLocationMarkers (view w) w"
  by (simp add: clearLocationMarkers_def setView_def markerRemove_def onMap_def Let_def
      split: option.splits)

theorem clearLocationMarkers_idempotent_witness:
  "clearLocationMarkers (view (clearLocationMarkers (view pickedWorld) pickedWorld))
      (clearLocationMarkers (view pickedWorld) pickedWorld)
     = clearLocationMarkers (view pickedWorld) pickedWorld
   \<and> markersOnMap pickedWorld \<noteq> []
   \<and> markersOnMap (clearLocationMarkers (view pickedWorld) pickedWorld) = []
   \<and> startLocation (view (clearLocationMarkers (view pickedWorld) pickedWorld)) = []"
proof -
  have "markersOnMap pickedWorld \<noteq> []"
    "markersOnMap (clearLocationMarkers (view pickedWorld) pickedWorld) = []"
    "startLocation (view (clearLocationMarkers (view pickedWorld) pickedWorld)) = []"
    by (simp_all add: pickedWorld_def handleLocationClick_def addStartMarker_def Let_def
        world_eval mountedWorld_def newMap_def clearLocationMarkers_def initialView_def)
  then show ?thesis using clearLocationMarkers_idempotent [of pickedWorld] by simp
qed

text \<open>
  C10. Every route of \<open>mockRoutes\<close> lacks a geometry, so \<open>displayRoutesOnMap\<close> draws none of
  them: a search with two non-blank texts against this backend stores the two mock routes
  and leaves no route layer and no route source on the map (its style being owned), also
  when some were drawn before.
\<close>

theorem mock_search_draws_nothing:
  assumes "trim (startLocation c) \<noteq> []" and "trim (endLocation c) \<noteq> []"
    and "mapCurrent w = Some e" and "owned e"
  shows "layersOnMap (searchBusRoutes c backend w) = []
    \<and> sourcesOnMap (searchBusRoutes c backend w) = []
    \<and> routeResults (view (searchBusRoutes c backend w)) =
         mockRoutes \<lparr>reqStart = startLocation c, reqEnd = endLocation c, reqMode = ''transit''\<rparr>
    \<and> length (routeResults (view (searchBusRoutes c backend w))) = 2
    \<and> list_all (\<lambda>r. geometry r = None) (routeResults (view (searchBusRoutes c backend w)))
    \<and> isLoadingRoute (view (searchBusRoutes c backend w)) = False"
proof -
  let ?req = "\<lparr>reqStart = startLocation c, reqEnd = endLocation c, reqMode = ''transit''\<rparr>"
  let ?w5 = "setView (\<lambda>v. v\<lparr>routeResults := mockRoutes ?req\<rparr>)
             ((setView (\<lambda>v. v\<lparr>routeResults := []\<rparr>)
                (setView (\<lambda>v. v\<lparr>isLoadingRoute := True\<rparr>) w))
              \<lparr>requests := requests w @ [?req]\<rparr>)"
  obtain r0 r1 where mr: "mockRoutes ?req = [r0, r1]" "bounds r0 = Some mockBounds"
    "geometry r0 = None" "geometry r1 = None"
    using mock_shape [of ?req] by blast
  have "routeSearchSchema ?req"
    using trim_nonempty [OF assms(1)] trim_nonempty [OF assms(2)]
    by (simp add: routeSearchSchema_def)
  then have b: "backend ?req = Response True (Some (r0 # [r1]))"
    by (simp add: backend_def mr)
  have s: "searchBusRoutes c backend w =
     setView (\<lambda>v. v\<lparr>isLoadingRoute := False\<rparr>)
       (fitRouteBounds mockBounds (displayRoutesOnMap c (mockRoutes ?req) ?w5))"
    using search_success [where serve = backend and c = c and w = w, OF assms(1,2) b mr(2)]
    by (simp add: mr)
  have m: "mapCurrent ?w5 = Some e" using assms(3) by simp
  have l: "layersOnMap (searchBusRoutes c backend w) = []"
    by (simp only: s setView_fields fit_fields display_layersOnMap [OF m assms(4)]
        mock_no_geometry list.map)
  have o: "sourcesOnMap (searchBusRoutes c backend w) = []"
    by (simp only: s setView_fields fit_fields display_sourcesOnMap [OF m assms(4)]
        mock_no_geometry list.map)
  have dv: "view (displayRoutesOnMap c (mockRoutes ?req) ?w5) =
              (view ?w5)\<lparr>activeRouteHandlers := []\<rparr>"
    by (simp only: display_eq [OF m assms(4)] mock_no_geometry) simp
  have r: "routeResults (view (searchBusRoutes c backend w)) = mockRoutes ?req"
    "isLoadingRoute (view (searchBusRoutes c backend w)) = False"
    by (simp_all only: s setView_fields fit_fields dv) simp_all
  show ?thesis
    using l o r by (simp add: mr)
qed

theorem mock_search_draws_nothing_witness:
  "layersOnMap routedWorld \<noteq> []
   \<and> layersOnMap (searchBusRoutes (view routedWorld) backend routedWorld) = []
   \<and> sourcesOnMap (searchBusRoutes (view routedWorld) backend routedWorld) = []
   \<and> length (routeResults (view (searchBusRoutes (view routedWorld) backend routedWorld))) = 2"
proof -
  have a: "mapCurrent routedWorld = Some (newMap [layerOf (0, lineRoute)] [sourceOf (0, lineRoute)])"
    by (simp add: routedWorld_def)
  have b: "owned (newMap [layerOf (0, lineRoute)] [sourceOf (0, lineRoute)])"
    by (simp add: owned_def newMap_def startsWith_def)
  have c: "layersOnMap routedWorld \<noteq> []"
    by (simp add: routedWorld_def layersOnMap_def routeLayers_def newMap_def startsWith_def)
  have t: "trim (startLocation (view routedWorld)) \<noteq> []" "trim (endLocation (view routedWorld)) \<noteq> []"
    by (simp_all add: routedWorld_def trim_letter)
  show ?thesis using c mock_search_draws_nothing [OF t a b] by blast
qed

end
